theory Spec2Isabelle
  imports Complex_Main "HOL-Library.Word" "HOL-Library.Signed_Division"
begin

section \<open>Go values used by the search package\<close>

text \<open>
  Go's \<open>int64\<close> is a 64-bit two's complement word. Go's \<open>int\<close> is taken at its width on
  64-bit platforms, so both are \<open>64 word\<close>: \<open>+\<close>, \<open>-\<close> and \<open>*\<close> wrap, \<open>sint\<close> reads the
  signed value and \<open><s\<close> is the signed comparison. The conversion \<open>int64(i)\<close> of an \<open>int\<close>
  is then the identity.
\<close>

type_synonym int64 = "64 word"
type_synonym goint = "64 word"

text \<open>
  Go's \<open>/\<close> and \<open>%\<close> on signed integers truncate towards zero (the remainder takes the
  sign of the dividend), and the most negative value divided by \<open>-1\<close> wraps to itself.
  Both panic on a zero divisor; the callers below test for it first.
\<close>

definition go_div :: "int64 \<Rightarrow> int64 \<Rightarrow> int64" where
  "go_div a b = word_of_int (sint a sdiv sint b)"

definition go_rem :: "int64 \<Rightarrow> int64 \<Rightarrow> int64" where
  "go_rem a b = word_of_int (sint a smod sint b)"

text \<open>Run-time panics of the Go code are values of the model.\<close>

datatype Panic = NilDereference | DivideByZero | IndexOutOfRange

text \<open>
  Go \<open>error\<close> values. \<open>strconv\<close> reports a \<open>NumError\<close> carrying the function name, the
  input and the reason; every other error is its text.
\<close>

datatype NumErr = ErrSyntax | ErrRange

datatype GoError = NumError string string NumErr | ErrorString string

subsection \<open>strconv.Atoi and strconv.Itoa\<close>

definition isDigit :: "char \<Rightarrow> bool" where
  "isDigit c = (48 \<le> (of_char c :: nat) \<and> (of_char c :: nat) \<le> 57)"

definition digitVal :: "char \<Rightarrow> int" where
  "digitVal c = of_char c - 48"

text \<open>
  The digit loop of \<open>strconv.ParseUint\<close> in base 10 and 64 bits: a byte that is no
  decimal digit is a syntax error, a value that leaves 64 bits is a range error, whichever
  comes first from the left.
\<close>

fun parseUint :: "string \<Rightarrow> int \<Rightarrow> NumErr + int" where
  "parseUint [] n = Inr n"
| "parseUint (c # cs) n =
     (if \<not> isDigit c then Inl ErrSyntax
      else if 2 ^ 64 \<le> n * 10 + digitVal c then Inl ErrRange
      else parseUint cs (n * 10 + digitVal c))"

text \<open>
  \<open>strconv.Atoi\<close>: an optional sign, then at least one decimal digit, and the value must
  fit a signed 64-bit \<open>int\<close>.
\<close>

definition Atoi :: "string \<Rightarrow> GoError + goint" where
  "Atoi s =
     (let neg = (case s of c # _ \<Rightarrow> c = CHR ''-'' | [] \<Rightarrow> False);
          body = (case s of c # cs \<Rightarrow> if c = CHR ''+'' \<or> c = CHR ''-'' then cs else s | [] \<Rightarrow> s)
      in if body = [] then Inl (NumError ''Atoi'' s ErrSyntax)
         else case parseUint body 0 of
                Inl e \<Rightarrow> Inl (NumError ''Atoi'' s e)
              | Inr un \<Rightarrow>
                  if \<not> neg \<and> 2 ^ 63 \<le> un then Inl (NumError ''Atoi'' s ErrRange)
                  else if neg \<and> 2 ^ 63 < un then Inl (NumError ''Atoi'' s ErrRange)
                  else Inr (word_of_int (if neg then - un else un)))"

definition digitChar :: "nat \<Rightarrow> char" where
  "digitChar d = ''0123456789'' ! d"

fun digitsOf :: "nat \<Rightarrow> string" where
  "digitsOf n =
     (if n < 10 then [digitChar n]
      else digitsOf (n div 10) @ [digitChar (n mod 10)])"

declare digitsOf.simps [simp del]

text \<open>\<open>strconv.Itoa\<close>: the decimal text of a signed \<open>int\<close>.\<close>

definition Itoa :: "goint \<Rightarrow> string" where
  "Itoa i = (if sint i < 0 then CHR ''-'' # digitsOf (nat (- sint i)) else digitsOf (nat (sint i)))"

subsection \<open>strings.Split on a one-byte separator\<close>

fun Split :: "string \<Rightarrow> char \<Rightarrow> string list" where
  "Split [] sep = [[]]"
| "Split (c # cs) sep =
     (if c = sep then [] # Split cs sep
      else (c # hd (Split cs sep)) # tl (Split cs sep))"

section \<open>REST errors\<close>

text \<open>
  Modelled from the spec: the \<open>RestError\<close> type and its constructors \<open>BadRequestError\<close>,
  \<open>UnprocessableEntityError\<close> and \<open>ServerError\<close> are used by the package but declared
  outside the three source files. The spec names three error kinds: caller-input,
  unprocessable-value and server-side; each error carries its message and the
  underlying cause, if any.
\<close>

datatype ErrKind = BadRequest | UnprocessableEntity | InternalServer

datatype RestError = RestError (kind: ErrKind) (message: string) (cause: "GoError option")

definition BadRequestError :: "string \<Rightarrow> GoError option \<Rightarrow> RestError" where
  "BadRequestError msg c = RestError BadRequest msg c"

definition UnprocessableEntityError :: "string \<Rightarrow> GoError option \<Rightarrow> RestError" where
  "UnprocessableEntityError msg c = RestError UnprocessableEntity msg c"

definition ServerError :: "string \<Rightarrow> GoError option \<Rightarrow> RestError" where
  "ServerError msg c = RestError InternalServer msg c"

text \<open>
  Modelled from the spec: \<open>HandleError\<close> belongs to the REST error-response plumbing
  outside the source files. The response writer is the list of errors written to it;
  \<open>HandleError\<close> writes the error and hands it back.
\<close>

type_synonym ResponseWriter = "RestError list"

definition HandleError :: "ResponseWriter \<Rightarrow> RestError \<Rightarrow> ResponseWriter \<times> RestError" where
  "HandleError w e = (w @ [e], e)"

section \<open>Search parameters (request.go and the unnamed source file)\<close>

text \<open>
  \<open>ExtractSearchParamsFromUrl\<close> is in both files, with the same body up to the package
  prefix of the REST helpers; \<open>PageInfo\<close>, \<open>SearchParams\<close>, \<open>EnsureSingleScope\<close> and
  \<open>SetTotalPages\<close> are in the unnamed file.
\<close>

record PageInfo =
  PageIndex :: goint
  ItemsPerPage :: goint
  TotalItemCount :: int64
  TotalPageCount :: int64

text \<open>The field \<open>PageInfo\<close> is a pointer in the source: \<open>None\<close> is the nil pointer.\<close>

record SearchParams =
  Scopes :: "string list"
  Terms :: "string list"
  Sort :: string
  PageInfo :: "PageInfo option"

text \<open>
  The request is its parsed form: each key has the list of its values, and
  \<open>FormValue\<close> is the first value of the key, or the empty string.
\<close>

record Request =
  Form :: "string \<rightharpoonup> string list"

definition FormValue :: "Request \<Rightarrow> string \<Rightarrow> string" where
  "FormValue r key = (case Form r key of Some (v # _) \<Rightarrow> v | _ \<Rightarrow> [])"

definition EnsureSingleScope :: "SearchParams \<Rightarrow> RestError option" where
  "EnsureSingleScope sp =
     (if 1 < length (Scopes sp) then Some (BadRequestError ''We currently only support a single scope.'' None)
      else if length (Scopes sp) = 0 then Some (BadRequestError ''No scope specified.'' None)
      else None)"

definition clampItemsPerPage :: "goint \<Rightarrow> goint" where
  "clampItemsPerPage itemsPerPage =
     (if itemsPerPage <s 20 then 20
      else if 250 <s itemsPerPage then 250
      else itemsPerPage)"

definition ExtractSearchParamsFromUrl ::
  "ResponseWriter \<Rightarrow> Request \<Rightarrow> ResponseWriter \<times> (RestError + SearchParams)" where
  "ExtractSearchParamsFromUrl w r =
     (let scopes = FormValue r ''scopes'';
          spScopes = (if scopes \<noteq> [] then Split scopes (CHR '','') else []);
          terms = FormValue r ''terms'';
          spTerms = (if terms \<noteq> [] then Split terms (CHR '','') else []);
          spSort = FormValue r ''sort'';
          pageIndexStr = FormValue r ''pageIndex''
      in case (if pageIndexStr \<noteq> [] then Atoi pageIndexStr else Inr 1) of
           Inl err \<Rightarrow>
             (case HandleError w (BadRequestError (''Could not parse pageIndex: '' @ pageIndexStr) (Some err)) of
                (w', e) \<Rightarrow> (w', Inl e))
         | Inr pageIndex \<Rightarrow>
             (let itemsPerPageStr = FormValue r ''itemsPerPage''
              in case (if itemsPerPageStr \<noteq> []
                       then (case Atoi itemsPerPageStr of
                               Inl err \<Rightarrow> Inl err
                             | Inr itemsPerPage \<Rightarrow> Inr (clampItemsPerPage itemsPerPage))
                       else Inr 100) of
                   Inl err \<Rightarrow>
                     (case HandleError w (BadRequestError (''Could not parse itemsPerPage: '' @ itemsPerPageStr) (Some err)) of
                        (w', e) \<Rightarrow> (w', Inl e))
                 | Inr itemsPerPage \<Rightarrow>
                     (w, Inr \<lparr>Scopes = spScopes, Terms = spTerms, Sort = spSort,
                              PageInfo = Some \<lparr>PageIndex = pageIndex, ItemsPerPage = itemsPerPage,
                                               TotalItemCount = 0, TotalPageCount = 0\<rparr>\<rparr>)))"

definition SetTotalPages :: "SearchParams \<Rightarrow> int64 \<Rightarrow> Panic + SearchParams" where
  "SetTotalPages sp count =
     (case PageInfo sp of
        None \<Rightarrow> Inl NilDereference
      | Some info \<Rightarrow>
          (let itemsPerPage = ItemsPerPage info;
               pageIndex = PageIndex info
           in if itemsPerPage = 0 then Inl DivideByZero
              else (let pageCount = go_div count itemsPerPage;
                        pageCount = (if 0 <s go_rem count itemsPerPage then pageCount + 1 else pageCount)
                    in Inr (sp\<lparr>PageInfo := Some \<lparr>PageIndex = pageIndex, ItemsPerPage = itemsPerPage,
                                                  TotalItemCount = count, TotalPageCount = pageCount\<rparr>\<rparr>))))"

section \<open>Paged queries (db.go)\<close>

text \<open>
  \<open>JoinData\<close> holds a \<open>JoinTest\<close>, a function over slices of pointers to \<open>JoinData\<close>.
  A HOL type cannot occur to the left of its own function arrow, so the test reads each
  context join through its first-order fields (\<open>JoinView\<close>): the clauses and the
  parameters, not the context join's own test. A nil pointer in the slice is \<open>None\<close>,
  and a nil \<open>JoinTest\<close> is \<open>None\<close>.
\<close>

record 'v JoinView =
  JoinClause :: string
  WhereClause :: string
  JoinParams :: "'v list"

type_synonym 'v JoinTest = "'v JoinView option list \<Rightarrow> bool \<times> string"

record 'v JoinData = "'v JoinView" +
  JoinTest :: "'v JoinTest option"

definition views :: "'v JoinData option list \<Rightarrow> 'v JoinView option list" where
  "views contextJoins = map (map_option JoinView.truncate) contextJoins"

text \<open>
  The database, as far as one call sees it: the outcome of each operation the call makes.
  \<open>BeginTx\<close> and \<open>Prepare\<close> give the error, if any; \<open>Query\<close> gives the row cursor or
  the error; \<open>TxnQuery\<close> gives the cursor of the count query, whose \<open>Next\<close> says
  whether a row is there and whose \<open>Scan\<close> reads the integer. The request context is
  only handed to \<open>BeginTx\<close> and is part of that outcome.
\<close>

record CountRows =
  Next :: bool
  Scan :: "GoError + int64"

record ('v, 'rows) Db =
  BeginTx :: "GoError option"
  Prepare :: "string \<Rightarrow> GoError option"
  Query :: "string \<Rightarrow> 'v list \<Rightarrow> GoError + 'rows"
  TxnQuery :: "string \<Rightarrow> GoError + CountRows"

text \<open>The calls made on the database, in order.\<close>

datatype 'v DbOp =
    OpBeginTx
  | OpPrepare string
  | OpQuery "'v list"
  | OpRowsClose
  | OpTxnQuery string
  | OpNext
  | OpScan
  | OpCountRowsClose
  | OpRollback
  | OpCommit

type_synonym 'v WhereBitGenerator = "string \<Rightarrow> 'v list \<Rightarrow> string \<times> 'v list \<times> GoError option"

type_synonym ('r, 'rows) ResultBuilder = "'rows \<Rightarrow> 'r option \<times> GoError option"

record ('v, 'r, 'rows) PagedQueryParameters =
  FieldSpec :: string
  GeneralFrom :: string
  ScopeJoins :: "string \<rightharpoonup> 'v JoinData"
  SearchWhereGenerator :: "'v WhereBitGenerator option"
  SortMap :: "string \<rightharpoonup> string"
  ResultBuilder :: "('r, 'rows) ResultBuilder option"
  ResourceName :: string
  SearchParams :: "SearchParams option"
  ContextJoins :: "'v JoinData list"
  Db :: "('v, 'rows) Db option"

text \<open>What a call of \<open>PagedQuery\<close> does: it returns its three results, or it panics.\<close>

datatype 'r Outcome =
    Returned "'r option" int64 "RestError option"
  | Panicked Panic

abbreviation sq :: string where
  "sq \<equiv> [CHR 0x27]"

text \<open>Lines 88 to 92: the loop over the context joins.\<close>

fun contextLoop ::
  "'v JoinData option list \<Rightarrow> 'v list \<times> string \<times> string \<Rightarrow> Panic + ('v list \<times> string \<times> string)" where
  "contextLoop [] st = Inr st"
| "contextLoop (None # rest) st = Inl NilDereference"
| "contextLoop (Some contextJoin # rest) (params, fromBit, whereBit) =
     contextLoop rest
       (params @ JoinParams contextJoin, fromBit @ JoinClause contextJoin, whereBit @ WhereClause contextJoin)"

text \<open>
  Lines 94 to 111: the loop over the requested scopes. The message of the unknown-scope
  error is built from \<open>Scopes[0]\<close>.
\<close>

fun scopeLoop ::
  "(string \<rightharpoonup> 'v JoinData) \<Rightarrow> SearchParams \<Rightarrow> 'v JoinView option list \<Rightarrow> string list \<Rightarrow>
   'v list \<times> string \<times> string \<Rightarrow> 'r Outcome + ('v list \<times> string \<times> string)" where
  "scopeLoop scopeJoins sp contextJoins [] st = Inr st"
| "scopeLoop scopeJoins sp contextJoins (scope # rest) (params, fromBit, whereBit) =
     (case scopeJoins scope of
        None \<Rightarrow>
          (case Scopes sp of
             [] \<Rightarrow> Inl (Panicked IndexOutOfRange)
           | s0 # _ \<Rightarrow>
               Inl (Returned None (- 1)
                      (Some (BadRequestError (''Found unknown scope: '' @ sq @ s0 @ sq @ ''.'') None))))
      | Some val \<Rightarrow>
          (let fromBit' =
                 (case JoinTest val of
                    None \<Rightarrow> fromBit @ JoinClause val
                  | Some joinTest \<Rightarrow>
                      (case joinTest contextJoins of
                         (useIt, override) \<Rightarrow>
                           if useIt then fromBit @ override else fromBit @ JoinClause val))
           in scopeLoop scopeJoins sp contextJoins rest
                (params @ JoinParams val, fromBit', whereBit @ WhereClause val)))"

text \<open>Lines 113 to 122: the loop over the search terms.\<close>

fun termLoop ::
  "'v WhereBitGenerator option \<Rightarrow> string list \<Rightarrow> 'v list \<times> string \<Rightarrow>
   'r Outcome + ('v list \<times> string)" where
  "termLoop gen [] st = Inr st"
| "termLoop gen (term' # rest) (params, whereBit) =
     (case gen of
        None \<Rightarrow> Inl (Panicked NilDereference)
      | Some g \<Rightarrow>
          (case g term' params of
             (whereTerm, params', err) \<Rightarrow>
               (case err of
                  Some e \<Rightarrow>
                    Inl (Returned None (- 1)
                           (Some (BadRequestError
                                    (''Could not process search term: '' @ sq @ term' @ sq @ ''.'') (Some e))))
                | None \<Rightarrow> termLoop gen rest (params', whereBit @ whereTerm))))"

text \<open>
  Lines 84 to 151: the assembly of the statement and of its bound parameters. It ends
  early with the outcome of the call, or gives the statement and the parameters.
\<close>

definition assemble ::
  "('v, 'r, 'rows) PagedQueryParameters \<Rightarrow> 'v JoinData option list \<Rightarrow> 'r Outcome + (string \<times> 'v list)" where
  "assemble pqp contextJoins =
     (case contextLoop contextJoins ([], GeneralFrom pqp, ''WHERE TRUE '') of
        Inl p \<Rightarrow> Inl (Panicked p)
      | Inr st1 \<Rightarrow>
     (case SearchParams pqp of
        None \<Rightarrow> Inl (Panicked NilDereference)
      | Some sp \<Rightarrow>
     (case scopeLoop (ScopeJoins pqp) sp (views contextJoins) (Scopes sp) st1 of
        Inl out \<Rightarrow> Inl out
      | Inr (params, fromBit, whereBit) \<Rightarrow>
     (case termLoop (SearchWhereGenerator pqp) (Terms sp) (params, whereBit) of
        Inl out \<Rightarrow> Inl out
      | Inr (params, whereBit) \<Rightarrow>
     (case PageInfo sp of
        None \<Rightarrow> Inl (Panicked NilDereference)
      | Some info \<Rightarrow>
          (let pageIndex = PageIndex info - 1;
               itemsPerPage = ItemsPerPage info
           in case SortMap pqp (Sort sp) of
                None \<Rightarrow>
                  Inl (Returned None (- 1)
                         (Some (UnprocessableEntityError (''Bad sort value: '' @ sq @ Sort sp @ sq @ ''.'') None)))
              | Some val \<Rightarrow>
                  (let limitAndOrderBy =
                         ''ORDER BY '' @ val @ ''LIMIT '' @ Itoa (pageIndex * itemsPerPage) @ '', '' @ Itoa itemsPerPage;
                       whereBit = (if whereBit = ''WHERE TRUE '' then [] else whereBit);
                       queryStmt = concat [''SELECT DISTINCT SQL_CALC_FOUND_ROWS '', FieldSpec pqp,
                                           fromBit, whereBit, limitAndOrderBy]
                   in Inr (queryStmt, params))))))))"

text \<open>
  Lines 160 to 214: the transaction. When \<open>BeginTx\<close> fails, \<open>database/sql\<close> returns a
  nil transaction with the error, and the source calls \<open>Rollback\<close> on it before it
  returns: a nil dereference.
\<close>

definition runQuery ::
  "('v, 'r, 'rows) PagedQueryParameters \<Rightarrow> string \<Rightarrow> 'v list \<Rightarrow> 'r Outcome \<times> 'v DbOp list" where
  "runQuery pqp queryStmt params =
     (let retrieve = ''Could not retrieve '' @ ResourceName pqp @ ''.''
      in case Db pqp of
        None \<Rightarrow> (Panicked NilDereference, [])
      | Some db \<Rightarrow>
     (case BeginTx db of
        Some err \<Rightarrow> (Panicked NilDereference, [OpBeginTx])
      | None \<Rightarrow>
     (case Prepare db queryStmt of
        Some err \<Rightarrow>
          (Returned None 0 (Some (ServerError (''Could not process '' @ ResourceName pqp @ '' query.'') (Some err))),
           [OpBeginTx, OpPrepare queryStmt, OpRollback])
      | None \<Rightarrow>
     (case Query db queryStmt params of
        Inl err \<Rightarrow>
          (Returned None 0 (Some (ServerError retrieve (Some err))),
           [OpBeginTx, OpPrepare queryStmt, OpQuery params, OpRollback])
      | Inr rows \<Rightarrow>
     (case ResultBuilder pqp of
        None \<Rightarrow> (Panicked NilDereference, [OpBeginTx, OpPrepare queryStmt, OpQuery params])
      | Some resultBuilder \<Rightarrow>
     (case resultBuilder rows of
        (results, Some err) \<Rightarrow>
          (Returned None 0 (Some (ServerError retrieve (Some err))),
           [OpBeginTx, OpPrepare queryStmt, OpQuery params, OpRowsClose, OpRollback])
      | (results, None) \<Rightarrow>
     (case TxnQuery db ''SELECT FOUND_ROWS()'' of
        Inl err \<Rightarrow>
          (Returned None 0 (Some (ServerError retrieve (Some err))),
           [OpBeginTx, OpPrepare queryStmt, OpQuery params, OpRowsClose,
            OpTxnQuery ''SELECT FOUND_ROWS()'', OpRollback])
      | Inr countRows \<Rightarrow>
          if \<not> Next countRows
          then (Returned None 0 (Some (ServerError retrieve None)),
                [OpBeginTx, OpPrepare queryStmt, OpQuery params, OpRowsClose,
                 OpTxnQuery ''SELECT FOUND_ROWS()'', OpNext, OpCountRowsClose, OpRollback])
          else (case Scan countRows of
                  Inl err \<Rightarrow>
                    (Returned None 0 (Some (ServerError retrieve (Some err))),
                     [OpBeginTx, OpPrepare queryStmt, OpQuery params, OpRowsClose,
                      OpTxnQuery ''SELECT FOUND_ROWS()'', OpNext, OpScan, OpCountRowsClose, OpRollback])
                | Inr count \<Rightarrow>
                    (Returned results count None,
                     [OpBeginTx, OpPrepare queryStmt, OpQuery params, OpRowsClose,
                      OpTxnQuery ''SELECT FOUND_ROWS()'', OpNext, OpScan, OpCountRowsClose, OpCommit])))))))))"

text \<open>
  \<open>PagedQuery\<close>: the outcome of the call and the calls it made on the database. An
  outcome of the assembly ends the call before any of them.
\<close>

definition PagedQuery ::
  "('v, 'r, 'rows) PagedQueryParameters \<Rightarrow> 'v JoinData option list \<Rightarrow> 'r Outcome \<times> 'v DbOp list" where
  "PagedQuery pqp contextJoins =
     (case assemble pqp contextJoins of
        Inl out \<Rightarrow> (out, [])
      | Inr (queryStmt, params) \<Rightarrow> runQuery pqp queryStmt params)"

section \<open>Closed forms of the assembled clauses\<close>

text \<open>
  The clauses as the specification describes them: the base FROM, then the context joins in
  the caller's order, then the scopes in the order of the search parameters, then the search
  terms in order. The loops of the source are compared with them below.
\<close>

definition spec_context_from :: "'v JoinData option list \<Rightarrow> string" where
  "spec_context_from contextJoins =
     concat (map (\<lambda>c. case c of None \<Rightarrow> [] | Some j \<Rightarrow> JoinClause j) contextJoins)"

definition spec_context_where :: "'v JoinData option list \<Rightarrow> string" where
  "spec_context_where contextJoins =
     concat (map (\<lambda>c. case c of None \<Rightarrow> [] | Some j \<Rightarrow> WhereClause j) contextJoins)"

definition spec_context_params :: "'v JoinData option list \<Rightarrow> 'v list" where
  "spec_context_params contextJoins =
     concat (map (\<lambda>c. case c of None \<Rightarrow> [] | Some j \<Rightarrow> JoinParams j) contextJoins)"

definition spec_scope_join :: "'v JoinData \<Rightarrow> 'v JoinView option list \<Rightarrow> string" where
  "spec_scope_join val contextJoins =
     (case JoinTest val of
        None \<Rightarrow> JoinClause val
      | Some joinTest \<Rightarrow>
          if fst (joinTest contextJoins) then snd (joinTest contextJoins) else JoinClause val)"

definition spec_scope_from ::
  "(string \<rightharpoonup> 'v JoinData) \<Rightarrow> 'v JoinView option list \<Rightarrow> string list \<Rightarrow> string" where
  "spec_scope_from scopeJoins contextJoins scopes =
     concat (map (\<lambda>s. case scopeJoins s of None \<Rightarrow> [] | Some val \<Rightarrow> spec_scope_join val contextJoins) scopes)"

definition spec_scope_where :: "(string \<rightharpoonup> 'v JoinData) \<Rightarrow> string list \<Rightarrow> string" where
  "spec_scope_where scopeJoins scopes =
     concat (map (\<lambda>s. case scopeJoins s of None \<Rightarrow> [] | Some val \<Rightarrow> WhereClause val) scopes)"

definition spec_scope_params :: "(string \<rightharpoonup> 'v JoinData) \<Rightarrow> string list \<Rightarrow> 'v list" where
  "spec_scope_params scopeJoins scopes =
     concat (map (\<lambda>s. case scopeJoins s of None \<Rightarrow> [] | Some val \<Rightarrow> JoinParams val) scopes)"

fun spec_terms :: "'v WhereBitGenerator option \<Rightarrow> string list \<Rightarrow> 'v list \<Rightarrow> string \<times> 'v list" where
  "spec_terms gen [] params = ([], params)"
| "spec_terms gen (term' # rest) params =
     (case gen of
        None \<Rightarrow> ([], params)
      | Some g \<Rightarrow>
          (case g term' params of
             (whereTerm, params', err) \<Rightarrow>
               (case spec_terms gen rest params' of
                  (whereTerms, params'') \<Rightarrow> (whereTerm @ whereTerms, params''))))"

fun termsAccepted :: "'v WhereBitGenerator option \<Rightarrow> string list \<Rightarrow> 'v list \<Rightarrow> bool" where
  "termsAccepted gen [] params = True"
| "termsAccepted gen (term' # rest) params =
     (case gen of
        None \<Rightarrow> False
      | Some g \<Rightarrow>
          (case g term' params of
             (whereTerm, params', err) \<Rightarrow> err = None \<and> termsAccepted gen rest params'))"

definition spec_base_params ::
  "('v, 'r, 'rows) PagedQueryParameters \<Rightarrow> SearchParams \<Rightarrow> 'v JoinData option list \<Rightarrow> 'v list" where
  "spec_base_params pqp sp contextJoins =
     spec_context_params contextJoins @ spec_scope_params (ScopeJoins pqp) (Scopes sp)"

definition clausesAssemble ::
  "('v, 'r, 'rows) PagedQueryParameters \<Rightarrow> SearchParams \<Rightarrow> 'v JoinData option list \<Rightarrow> bool" where
  "clausesAssemble pqp sp contextJoins =
     (list_all (\<lambda>c. c \<noteq> None) contextJoins \<and>
      list_all (\<lambda>s. ScopeJoins pqp s \<noteq> None) (Scopes sp) \<and>
      termsAccepted (SearchWhereGenerator pqp) (Terms sp) (spec_base_params pqp sp contextJoins))"

definition spec_from ::
  "('v, 'r, 'rows) PagedQueryParameters \<Rightarrow> SearchParams \<Rightarrow> 'v JoinData option list \<Rightarrow> string" where
  "spec_from pqp sp contextJoins =
     GeneralFrom pqp @ spec_context_from contextJoins @
     spec_scope_from (ScopeJoins pqp) (views contextJoins) (Scopes sp)"

definition spec_where ::
  "('v, 'r, 'rows) PagedQueryParameters \<Rightarrow> SearchParams \<Rightarrow> 'v JoinData option list \<Rightarrow> string" where
  "spec_where pqp sp contextJoins =
     ''WHERE TRUE '' @ spec_context_where contextJoins @ spec_scope_where (ScopeJoins pqp) (Scopes sp) @
     fst (spec_terms (SearchWhereGenerator pqp) (Terms sp) (spec_base_params pqp sp contextJoins))"

definition spec_params ::
  "('v, 'r, 'rows) PagedQueryParameters \<Rightarrow> SearchParams \<Rightarrow> 'v JoinData option list \<Rightarrow> 'v list" where
  "spec_params pqp sp contextJoins =
     snd (spec_terms (SearchWhereGenerator pqp) (Terms sp) (spec_base_params pqp sp contextJoins))"

definition spec_limit :: "PageInfo \<Rightarrow> string" where
  "spec_limit info =
     ''LIMIT '' @ Itoa ((PageIndex info - 1) * ItemsPerPage info) @ '', '' @ Itoa (ItemsPerPage info)"

definition spec_statement ::
  "('v, 'r, 'rows) PagedQueryParameters \<Rightarrow> SearchParams \<Rightarrow> PageInfo \<Rightarrow> string \<Rightarrow>
   'v JoinData option list \<Rightarrow> string" where
  "spec_statement pqp sp info val contextJoins =
     ''SELECT DISTINCT SQL_CALC_FOUND_ROWS '' @ FieldSpec pqp @ spec_from pqp sp contextJoins @
     (if spec_where pqp sp contextJoins = ''WHERE TRUE '' then [] else spec_where pqp sp contextJoins) @
     ''ORDER BY '' @ val @ spec_limit info"

text \<open>The outcome of the scope loop at a scope that the scope map does not have.\<close>

definition unknownScope :: "SearchParams \<Rightarrow> 'r Outcome" where
  "unknownScope sp =
     (case Scopes sp of
        [] \<Rightarrow> Panicked IndexOutOfRange
      | s0 # _ \<Rightarrow>
          Returned None (- 1) (Some (BadRequestError (''Found unknown scope: '' @ sq @ s0 @ sq @ ''.'') None)))"

section \<open>Example inputs\<close>

definition examplePage :: PageInfo where
  "examplePage = \<lparr>PageIndex = 2, ItemsPerPage = 20, TotalItemCount = 0, TotalPageCount = 0\<rparr>"

definition exampleParams :: SearchParams where
  "exampleParams = \<lparr>Scopes = [''active''], Terms = [''widget''], Sort = [], PageInfo = Some examplePage\<rparr>"

definition activeJoin :: "string JoinData" where
  "activeJoin = \<lparr>JoinClause = ''JOIN status s ON s.id = w.status_id '', WhereClause = ''AND s.active = ? '',
                  JoinParams = [''1''], JoinTest = None\<rparr>"

definition parentJoin :: "string JoinData" where
  "parentJoin = \<lparr>JoinClause = ''JOIN owners o ON o.id = w.owner_id '', WhereClause = ''AND o.id = ? '',
                  JoinParams = [''7''], JoinTest = None\<rparr>"

definition ownedTest :: "string JoinTest" where
  "ownedTest contextJoins =
     (if list_ex (\<lambda>c. case c of None \<Rightarrow> False
                        | Some j \<Rightarrow> JoinClause j = ''JOIN owners o ON o.id = w.owner_id '') contextJoins
      then (True, ''JOIN owner_flags f ON f.owner_id = o.id '')
      else (False, []))"

definition ownedJoin :: "string JoinData" where
  "ownedJoin =
     \<lparr>JoinClause = ''JOIN owners o ON o.id = w.owner_id JOIN owner_flags f ON f.owner_id = o.id '',
      WhereClause = ''AND f.verified = 1 '', JoinParams = [], JoinTest = Some ownedTest\<rparr>"

definition exampleGenerator :: "string WhereBitGenerator" where
  "exampleGenerator term' params =
     (if term' = [] then ([], params, Some (ErrorString ''empty search term''))
      else (''AND w.name LIKE ? '', params @ [term'], None))"

definition exampleBuilder :: "(string list, string list) ResultBuilder" where
  "exampleBuilder rows = (Some rows, None)"

definition exampleDb :: "(string, string list) Db" where
  "exampleDb = \<lparr>BeginTx = None, Prepare = (\<lambda>stmt. None), Query = (\<lambda>stmt params. Inr [''row 21'', ''row 22'']),
                 TxnQuery = (\<lambda>stmt. Inr \<lparr>Next = True, Scan = Inr 45\<rparr>)\<rparr>"

definition exampleQuery :: "(string, string list, string list) PagedQueryParameters" where
  "exampleQuery =
     \<lparr>FieldSpec = ''w.id, w.name '', GeneralFrom = ''FROM widgets w '',
      ScopeJoins = [''active'' \<mapsto> activeJoin, ''owned'' \<mapsto> ownedJoin],
      SearchWhereGenerator = Some exampleGenerator,
      SortMap = [[] \<mapsto> ''w.name ASC ''],
      ResultBuilder = Some exampleBuilder, ResourceName = ''widgets'',
      SearchParams = Some exampleParams, ContextJoins = [], Db = Some exampleDb\<rparr>"

definition exampleStatement :: string where
  "exampleStatement =
     ''SELECT DISTINCT SQL_CALC_FOUND_ROWS w.id, w.name FROM widgets w '' @
     ''JOIN status s ON s.id = w.status_id '' @
     ''WHERE TRUE AND s.active = ? AND w.name LIKE ? '' @
     ''ORDER BY w.name ASC LIMIT 20, 20''"

definition requestOf :: "(string \<times> string) list \<Rightarrow> Request" where
  "requestOf pairs = \<lparr>Form = map_of (map (\<lambda>(k, v). (k, [v])) pairs)\<rparr>"

definition unsortedParams :: SearchParams where
  "unsortedParams = exampleParams\<lparr>Sort := ''nope''\<rparr>"

definition ownedParams :: SearchParams where
  "ownedParams = exampleParams\<lparr>Scopes := [''owned'']\<rparr>"

definition ownedStatement :: string where
  "ownedStatement =
     ''SELECT DISTINCT SQL_CALC_FOUND_ROWS w.id, w.name FROM widgets w '' @
     ''JOIN owners o ON o.id = w.owner_id '' @
     ''JOIN owner_flags f ON f.owner_id = o.id '' @
     ''WHERE TRUE AND o.id = ? AND f.verified = 1 AND w.name LIKE ? '' @
     ''ORDER BY w.name ASC LIMIT 20, 20''"

definition failingDb :: "(string, string list) Db" where
  "failingDb = exampleDb\<lparr>Prepare := (\<lambda>stmt. Some (ErrorString ''You have an error in your SQL syntax''))\<rparr>"

definition hugePage :: PageInfo where
  "hugePage = \<lparr>PageIndex = 9223372036854775807, ItemsPerPage = 250, TotalItemCount = 0, TotalPageCount = 0\<rparr>"

definition hugeParams :: SearchParams where
  "hugeParams = \<lparr>Scopes = [], Terms = [], Sort = [], PageInfo = Some hugePage\<rparr>"

definition hugeStatement :: string where
  "hugeStatement =
     ''SELECT DISTINCT SQL_CALC_FOUND_ROWS w.id, w.name FROM widgets w '' @
     ''ORDER BY w.name ASC LIMIT -500, 250''"

section \<open>Integer arithmetic\<close>

lemma sint_word_of_int_64:
  "- (2 ^ 63) \<le> x \<Longrightarrow> x < 2 ^ 63 \<Longrightarrow> sint (word_of_int x :: 64 word) = x"
  by (simp add: sint_sbintrunc' signed_take_bit_int_eq_self)

lemma sint_64_bounds: "- (2 ^ 63) \<le> sint (w :: 64 word) \<and> sint w < 2 ^ 63"
  using sint_ge [of w] sint_lt [of w] by simp

lemma sint_go_div_nonneg:
  assumes "0 \<le> sint c" "0 < sint n"
  shows "sint (go_div c n) = sint c div sint n"
proof -
  have "sint c sdiv sint n = sint c div sint n"
    using assms by (cases "sint c = 0") (simp_all add: signed_divide_int_def)
  moreover have "0 \<le> sint c div sint n" using assms by (simp add: pos_imp_zdiv_nonneg_iff)
  moreover have "sint c div sint n \<le> sint c"
    using zdiv_mono2 [of "sint c" 1 "sint n"] assms by simp
  ultimately show ?thesis
    using sint_64_bounds [of c] by (simp add: go_div_def sint_word_of_int_64)
qed

lemma sint_go_rem_nonneg:
  assumes "0 \<le> sint c" "0 < sint n"
  shows "sint (go_rem c n) = sint c mod sint n"
proof -
  have "sint c smod sint n = sint c mod sint n"
    using assms by (cases "sint c = 0") (simp_all add: signed_modulo_int_def)
  moreover have "0 \<le> sint c mod sint n" using assms by simp
  moreover have "sint c mod sint n < sint n" using assms by simp
  ultimately show ?thesis
    using sint_64_bounds [of n] by (simp add: go_rem_def sint_word_of_int_64)
qed

lemma sint_plus_one:
  "sint (w :: 64 word) < 2 ^ 63 - 1 \<Longrightarrow> sint (w + 1) = sint w + 1"
  using sint_64_bounds [of w]
  by (simp add: sint_word_add signed_take_bit_int_eq_self)

lemma ceiling_div_int:
  assumes "0 < (n::int)"
  shows "\<lceil>real_of_int c / real_of_int n\<rceil> = c div n + (if 0 < c mod n then 1 else 0)"
proof -
  have "0 \<le> c mod n" using assms by simp
  then have "(c mod n = 0) = (\<not> 0 < c mod n)" by linarith
  then show ?thesis
    using assms by (simp add: ceiling_divide_eq_div zdiv_zminus1_eq_if)
qed

section \<open>SetTotalPages\<close>

text \<open>
  C2: for every count \<open>\<ge> 0\<close> and every PageInfo with itemsPerPage \<open>> 0\<close>, \<open>SetTotalPages\<close>
  returns, keeps pageIndex and itemsPerPage, sets totalItemCount to the count and sets
  totalPageCount to count / itemsPerPage, plus 1 if the remainder is positive, which is the
  ceiling of the quotient. The witness evaluates the three examples: 101 items on pages of 20
  give 6 pages, 100 give 5, 0 give 0.
\<close>

theorem SetTotalPages_ceiling:
  assumes "PageInfo sp = Some info" and "0 \<le> sint count" and "0 < sint (ItemsPerPage info)"
  shows "\<exists>pageCount.
           SetTotalPages sp count =
             Inr (sp\<lparr>PageInfo := Some \<lparr>PageIndex = PageIndex info, ItemsPerPage = ItemsPerPage info,
                                        TotalItemCount = count, TotalPageCount = pageCount\<rparr>\<rparr>) \<and>
           sint pageCount =
             sint count div sint (ItemsPerPage info) +
             (if 0 < sint count mod sint (ItemsPerPage info) then 1 else 0) \<and>
           sint pageCount = \<lceil>real_of_int (sint count) / real_of_int (sint (ItemsPerPage info))\<rceil>"
proof -
  let ?n = "ItemsPerPage info"
  let ?q = "go_div count ?n"
  let ?pc = "if 0 <s go_rem count ?n then ?q + 1 else ?q"
  have nz: "?n \<noteq> 0" using assms(3) by auto
  have q: "sint ?q = sint count div sint ?n"
    using assms by (simp add: sint_go_div_nonneg)
  have r: "sint (go_rem count ?n) = sint count mod sint ?n"
    using assms by (simp add: sint_go_rem_nonneg)
  have lt: "(0 <s go_rem count ?n) = (0 < sint count mod sint ?n)"
    by (simp add: word_sless_alt r)
  have run: "SetTotalPages sp count =
      Inr (sp\<lparr>PageInfo := Some \<lparr>PageIndex = PageIndex info, ItemsPerPage = ?n,
                                 TotalItemCount = count, TotalPageCount = ?pc\<rparr>\<rparr>)"
    using assms(1) nz by (simp add: SetTotalPages_def Let_def)
  have val: "sint ?pc = sint count div sint ?n + (if 0 < sint count mod sint ?n then 1 else 0)"
  proof (cases "0 < sint count mod sint ?n")
    case False
    then show ?thesis by (simp add: lt q)
  next
    case True
    then have "sint ?n \<noteq> 1" by auto
    then have two: "2 \<le> sint ?n" using assms(3) by linarith
    have "sint count div sint ?n \<le> sint count div 2"
      using assms(2) two by (simp add: zdiv_mono2)
    also have "\<dots> < 2 ^ 63 - 1"
      using sint_64_bounds [of count] by simp arith
    finally have "sint ?q < 2 ^ 63 - 1" by (simp add: q)
    then have "sint (?q + 1) = sint ?q + 1" by (rule sint_plus_one)
    then show ?thesis using True by (simp add: lt q)
  qed
  have "sint ?pc = \<lceil>real_of_int (sint count) / real_of_int (sint ?n)\<rceil>"
    using assms(3) by (simp only: val ceiling_div_int)
  with run val show ?thesis by blast
qed


lemma word64_eq_of_sint: "sint (w :: 64 word) = k \<Longrightarrow> w = word_of_int k"
  by auto

theorem SetTotalPages_ceiling_witness:
  "SetTotalPages exampleParams 101 =
     Inr (exampleParams\<lparr>PageInfo := Some (examplePage\<lparr>TotalItemCount := 101, TotalPageCount := 6\<rparr>)\<rparr>) \<and>
   SetTotalPages exampleParams 100 =
     Inr (exampleParams\<lparr>PageInfo := Some (examplePage\<lparr>TotalItemCount := 100, TotalPageCount := 5\<rparr>)\<rparr>) \<and>
   SetTotalPages exampleParams 0 =
     Inr (exampleParams\<lparr>PageInfo := Some (examplePage\<lparr>TotalItemCount := 0, TotalPageCount := 0\<rparr>)\<rparr>)"
proof -
  have p: "PageInfo exampleParams = Some examplePage"
    by (simp add: exampleParams_def)
  have n: "0 < sint (ItemsPerPage examplePage)"
    by (simp add: examplePage_def)
  have a: "SetTotalPages exampleParams 101 =
     Inr (exampleParams\<lparr>PageInfo := Some (examplePage\<lparr>TotalItemCount := 101, TotalPageCount := 6\<rparr>)\<rparr>)"
    using SetTotalPages_ceiling [OF p _ n, of 101]
    by (auto simp: examplePage_def dest: word64_eq_of_sint)
  have b: "SetTotalPages exampleParams 100 =
     Inr (exampleParams\<lparr>PageInfo := Some (examplePage\<lparr>TotalItemCount := 100, TotalPageCount := 5\<rparr>)\<rparr>)"
    using SetTotalPages_ceiling [OF p _ n, of 100]
    by (auto simp: examplePage_def dest: word64_eq_of_sint)
  have c: "SetTotalPages exampleParams 0 =
     Inr (exampleParams\<lparr>PageInfo := Some (examplePage\<lparr>TotalItemCount := 0, TotalPageCount := 0\<rparr>)\<rparr>)"
    using SetTotalPages_ceiling [OF p _ n, of 0]
    by (auto simp: examplePage_def dest: word64_eq_of_sint)
  from a b c show ?thesis by simp
qed

lemma SetTotalPages_Inr:
  assumes "PageInfo sp = Some info" and "ItemsPerPage info \<noteq> 0"
  shows "SetTotalPages sp count =
           Inr (sp\<lparr>PageInfo := Some \<lparr>PageIndex = PageIndex info, ItemsPerPage = ItemsPerPage info,
                                      TotalItemCount = count,
                                      TotalPageCount =
                                        (if 0 <s go_rem count (ItemsPerPage info)
                                         then go_div count (ItemsPerPage info) + 1
                                         else go_div count (ItemsPerPage info))\<rparr>\<rparr>)"
  using assms by (simp add: SetTotalPages_def Let_def)

lemma SetTotalPages_overwrite:
  "(case SetTotalPages sp c1 of Inl p \<Rightarrow> Inl p | Inr sp' \<Rightarrow> SetTotalPages sp' c2) = SetTotalPages sp c2"
proof (cases "PageInfo sp")
  case None
  then show ?thesis by (simp add: SetTotalPages_def)
next
  case (Some info)
  show ?thesis
  proof (cases "ItemsPerPage info = 0")
    case True
    with Some show ?thesis by (simp add: SetTotalPages_def)
  next
    case False
    with Some show ?thesis
      by (simp add: SetTotalPages_Inr [OF Some False] SetTotalPages_Inr [where info = "\<lparr>PageIndex = PageIndex info, ItemsPerPage = ItemsPerPage info,
                                      TotalItemCount = c1,
                                      TotalPageCount =
                                        (if 0 <s go_rem c1 (ItemsPerPage info)
                                         then go_div c1 (ItemsPerPage info) + 1
                                         else go_div c1 (ItemsPerPage info))\<rparr>"])
  qed
qed

text \<open>
  C8: \<open>SetTotalPages\<close> is idempotent given the same count: a second call with the same count
  gives what the first gave (and a panic of the first call is the panic of both). More
  generally, of two calls with any pair of counts only the last one shows. A call that
  returns leaves pageIndex and itemsPerPage as they were, and the call returns whenever the
  PageInfo is there and itemsPerPage is not zero.
\<close>

theorem SetTotalPages_idempotent_frame:
  "(case SetTotalPages sp count of Inl p \<Rightarrow> Inl p | Inr sp' \<Rightarrow> SetTotalPages sp' count)
     = SetTotalPages sp count \<and>
   (case SetTotalPages sp c of Inl p \<Rightarrow> Inl p | Inr sp' \<Rightarrow> SetTotalPages sp' d)
     = SetTotalPages sp d \<and>
   (\<forall>sp'. SetTotalPages sp count = Inr sp' \<longrightarrow>
      (\<exists>info info'. PageInfo sp = Some info \<and> PageInfo sp' = Some info' \<and>
         PageIndex info' = PageIndex info \<and> ItemsPerPage info' = ItemsPerPage info)) \<and>
   (\<forall>info. PageInfo sp = Some info \<and> ItemsPerPage info \<noteq> 0 \<longrightarrow>
      (\<exists>sp'. SetTotalPages sp count = Inr sp'))"
proof -
  have frame: "\<forall>sp'. SetTotalPages sp count = Inr sp' \<longrightarrow>
      (\<exists>info info'. PageInfo sp = Some info \<and> PageInfo sp' = Some info' \<and>
         PageIndex info' = PageIndex info \<and> ItemsPerPage info' = ItemsPerPage info)"
    by (auto simp: SetTotalPages_def Let_def split: option.splits if_splits)
  have total: "\<forall>info. PageInfo sp = Some info \<and> ItemsPerPage info \<noteq> 0 \<longrightarrow>
      (\<exists>sp'. SetTotalPages sp count = Inr sp')"
    by (simp add: SetTotalPages_Inr)
  from frame total show ?thesis
    by (simp only: SetTotalPages_overwrite simp_thms)
qed

theorem SetTotalPages_idempotent_frame_witness:
  "SetTotalPages exampleParams 45 =
     Inr (exampleParams\<lparr>PageInfo := Some (examplePage\<lparr>TotalItemCount := 45, TotalPageCount := 3\<rparr>)\<rparr>) \<and>
   SetTotalPages (exampleParams\<lparr>PageInfo := Some (examplePage\<lparr>TotalItemCount := 45, TotalPageCount := 3\<rparr>)\<rparr>) 45 =
     Inr (exampleParams\<lparr>PageInfo := Some (examplePage\<lparr>TotalItemCount := 45, TotalPageCount := 3\<rparr>)\<rparr>)"
proof -
  have run: "SetTotalPages exampleParams 45 =
     Inr (exampleParams\<lparr>PageInfo := Some (examplePage\<lparr>TotalItemCount := 45, TotalPageCount := 3\<rparr>)\<rparr>)"
    by (simp add: SetTotalPages_def exampleParams_def examplePage_def go_div_def go_rem_def
        signed_divide_int_def signed_modulo_int_def word_sless_alt)
  show ?thesis
    using SetTotalPages_idempotent_frame [where sp = exampleParams and count = 45 and c = 0 and d = 0]
    by (simp add: run)
qed

section \<open>The clause loops\<close>

lemma contextLoop_closed:
  "list_all (\<lambda>c. c \<noteq> None) cjs \<Longrightarrow>
   contextLoop cjs (ps, f, w) =
     Inr (ps @ spec_context_params cjs, f @ spec_context_from cjs, w @ spec_context_where cjs)"
proof (induction cjs arbitrary: ps f w)
  case Nil
  then show ?case
    by (simp add: spec_context_params_def spec_context_from_def spec_context_where_def)
next
  case (Cons c cjs)
  then obtain j where c: "c = Some j" by auto
  from Cons.prems have "list_all (\<lambda>c. c \<noteq> None) cjs" by simp
  from Cons.IH [OF this] show ?case
    by (simp add: c spec_context_params_def spec_context_from_def spec_context_where_def)
qed

lemma contextLoop_nil:
  "\<not> list_all (\<lambda>c. c \<noteq> None) cjs \<Longrightarrow> contextLoop cjs st = Inl NilDereference"
proof (induction cjs arbitrary: st)
  case Nil
  then show ?case by simp
next
  case (Cons c cjs)
  obtain ps f w where st: "st = (ps, f, w)" by (cases st)
  show ?case
  proof (cases c)
    case None
    then show ?thesis by simp
  next
    case (Some j)
    with Cons.prems have "\<not> list_all (\<lambda>c. c \<noteq> None) cjs" by simp
    from Cons.IH [OF this] show ?thesis by (simp add: Some st)
  qed
qed

lemma scopeLoop_closed:
  "list_all (\<lambda>s. sj s \<noteq> None) scopes \<Longrightarrow>
   scopeLoop sj sp cjv scopes (ps, f, w) =
     Inr (ps @ spec_scope_params sj scopes, f @ spec_scope_from sj cjv scopes, w @ spec_scope_where sj scopes)"
proof (induction scopes arbitrary: ps f w)
  case Nil
  then show ?case
    by (simp add: spec_scope_params_def spec_scope_from_def spec_scope_where_def)
next
  case (Cons s scopes)
  then obtain val where s: "sj s = Some val" by auto
  from Cons.prems have "list_all (\<lambda>s. sj s \<noteq> None) scopes" by simp
  note IH = Cons.IH [OF this]
  show ?case
    by (cases "JoinTest val")
       (simp_all add: s IH spec_scope_params_def spec_scope_from_def spec_scope_where_def
          spec_scope_join_def split: prod.split)
qed

lemma scopeLoop_unknown:
  "\<not> list_all (\<lambda>s. sj s \<noteq> None) scopes \<Longrightarrow> scopeLoop sj sp cjv scopes st = Inl (unknownScope sp)"
proof (induction scopes arbitrary: st)
  case Nil
  then show ?case by simp
next
  case (Cons s scopes)
  obtain ps f w where st: "st = (ps, f, w)" by (cases st)
  show ?case
  proof (cases "sj s")
    case None
    then show ?thesis by (simp add: st unknownScope_def split: list.split)
  next
    case (Some val)
    with Cons.prems have "\<not> list_all (\<lambda>s. sj s \<noteq> None) scopes" by simp
    from Cons.IH [OF this] show ?thesis by (simp add: Some st Let_def)
  qed
qed

lemma termLoop_closed:
  "termsAccepted gen ts ps \<Longrightarrow>
   termLoop gen ts (ps, w) = Inr (snd (spec_terms gen ts ps), w @ fst (spec_terms gen ts ps))"
proof (induction ts arbitrary: ps w)
  case Nil
  then show ?case by simp
next
  case (Cons t ts)
  then show ?case
    by (auto split: option.splits prod.splits)
qed

lemma termLoop_rejected:
  "\<not> termsAccepted gen ts ps \<Longrightarrow>
   termLoop gen ts (ps, w) = Inl (Panicked NilDereference) \<or>
   (\<exists>t e. t \<in> set ts \<and>
      termLoop gen ts (ps, w) =
        Inl (Returned None (- 1)
               (Some (BadRequestError (''Could not process search term: '' @ sq @ t @ sq @ ''.'') (Some e)))))"
proof (induction ts arbitrary: ps w)
  case Nil
  then show ?case by simp
next
  case (Cons t ts)
  show ?case
  proof (cases gen)
    case None
    then show ?thesis by simp
  next
    case (Some g)
    obtain wt ps' err where g: "g t ps = (wt, ps', err)" by (cases "g t ps")
    show ?thesis
    proof (cases err)
      case None
      with Cons.prems Some g have "\<not> termsAccepted gen ts ps'" by simp
      from Cons.IH [OF this, of "w @ wt"] show ?thesis
        using Some g None by auto
    next
      case (Some e)
      then show ?thesis using \<open>gen = Some g\<close> g by auto
    qed
  qed
qed

lemma assemble_closed:
  assumes "SearchParams pqp = Some sp" and "clausesAssemble pqp sp cjs"
    and "PageInfo sp = Some info" and "SortMap pqp (Sort sp) = Some val"
  shows "assemble pqp cjs = Inr (spec_statement pqp sp info val cjs, spec_params pqp sp cjs)"
proof -
  from assms(2) have c: "list_all (\<lambda>c. c \<noteq> None) cjs"
    and s: "list_all (\<lambda>s. ScopeJoins pqp s \<noteq> None) (Scopes sp)"
    and t: "termsAccepted (SearchWhereGenerator pqp) (Terms sp) (spec_base_params pqp sp cjs)"
    by (simp_all add: clausesAssemble_def)
  have t': "termsAccepted (SearchWhereGenerator pqp) (Terms sp)
              (spec_context_params cjs @ spec_scope_params (ScopeJoins pqp) (Scopes sp))"
    using t by (simp add: spec_base_params_def)
  show ?thesis
    unfolding assemble_def
    by (simp add: contextLoop_closed [OF c] assms(1,3,4) scopeLoop_closed [OF s]
        termLoop_closed [OF t'] Let_def spec_statement_def spec_where_def spec_from_def
        spec_params_def spec_base_params_def spec_limit_def)
qed

lemma assemble_Inr_D:
  fixes pqp :: "('v, 'r, 'rows) PagedQueryParameters"
  assumes "assemble pqp cjs = Inr r"
  shows "\<exists>sp info val. SearchParams pqp = Some sp \<and> clausesAssemble pqp sp cjs \<and>
           PageInfo sp = Some info \<and> SortMap pqp (Sort sp) = Some val"
proof -
  have c: "list_all (\<lambda>c. c \<noteq> None) cjs"
  proof (rule ccontr)
    assume n: "\<not> ?thesis"
    show False using assms by (simp add: assemble_def contextLoop_nil [OF n])
  qed
  obtain sp where sp: "SearchParams pqp = Some sp"
    using assms c by (cases "SearchParams pqp") (auto simp: assemble_def contextLoop_closed)
  have s: "list_all (\<lambda>s. ScopeJoins pqp s \<noteq> None) (Scopes sp)"
  proof (rule ccontr)
    assume n: "\<not> ?thesis"
    show False
      using assms by (simp add: assemble_def contextLoop_closed [OF c] sp scopeLoop_unknown [OF n])
  qed
  have t: "termsAccepted (SearchWhereGenerator pqp) (Terms sp)
              (spec_context_params cjs @ spec_scope_params (ScopeJoins pqp) (Scopes sp))"
  proof (rule ccontr)
    assume "\<not> ?thesis"
    from termLoop_rejected [OF this]
    obtain out :: "'r Outcome" where "termLoop (SearchWhereGenerator pqp) (Terms sp)
        (spec_context_params cjs @ spec_scope_params (ScopeJoins pqp) (Scopes sp),
         ''WHERE TRUE '' @ spec_context_where cjs @ spec_scope_where (ScopeJoins pqp) (Scopes sp)) = Inl out"
      by blast
    then show False
      using assms by (simp add: assemble_def contextLoop_closed [OF c] sp scopeLoop_closed [OF s])
  qed
  have rest: "\<exists>info val. PageInfo sp = Some info \<and> SortMap pqp (Sort sp) = Some val"
    using assms sp
    by (auto simp: assemble_def contextLoop_closed [OF c] scopeLoop_closed [OF s]
        termLoop_closed [OF t] Let_def split: option.splits)
  with sp c s t show ?thesis
    by (auto simp: clausesAssemble_def spec_base_params_def)
qed

section \<open>Evaluation of the examples\<close>

lemmas example_defs = exampleQuery_def exampleParams_def examplePage_def activeJoin_def ownedJoin_def
  parentJoin_def ownedTest_def exampleGenerator_def exampleBuilder_def exampleDb_def

lemmas run_defs = PagedQuery_def assemble_def runQuery_def views_def Itoa_def digitsOf.simps digitChar_def
  BadRequestError_def UnprocessableEntityError_def ServerError_def JoinView.truncate_def


lemma assemble_exampleQuery:
  "assemble exampleQuery [] = Inr (exampleStatement, [''1'', ''widget''])"
  by (simp add: example_defs run_defs exampleStatement_def)

lemma PagedQuery_exampleQuery:
  "PagedQuery exampleQuery [] =
     (Returned (Some [''row 21'', ''row 22'']) 45 None,
      [OpBeginTx, OpPrepare exampleStatement, OpQuery [''1'', ''widget''], OpRowsClose,
       OpTxnQuery ''SELECT FOUND_ROWS()'', OpNext, OpScan, OpCountRowsClose, OpCommit])"
  by (simp add: PagedQuery_def assemble_exampleQuery)
     (simp add: runQuery_def example_defs)

section \<open>Unknown scopes\<close>

text \<open>
  C1: an unknown scope is to be rejected with a caller-input error whose message names the
  first unknown scope, without any call on the database. The source builds the message from
  \<open>Scopes[0]\<close>: with the scopes \<open>active, bogus\<close>, of which \<open>active\<close> is in the scope map and
  \<open>bogus\<close> is not, the message names \<open>active\<close>.
\<close>

theorem PagedQuery_unknown_scope_names_first_scope:
  "ScopeJoins exampleQuery ''active'' = Some activeJoin \<and>
   ScopeJoins exampleQuery ''bogus'' = None \<and>
   PagedQuery (exampleQuery\<lparr>SearchParams := Some (exampleParams\<lparr>Scopes := [''active'', ''bogus'']\<rparr>)\<rparr>) [] =
     (Returned None (- 1) (Some (BadRequestError (''Found unknown scope: '' @ sq @ ''active'' @ sq @ ''.'') None)), [])"
  by (simp add: example_defs run_defs)

text \<open>
  Whatever the position of the unknown scope, the call returns the caller-input error built
  from the first scope of the list, the count \<open>-1\<close>, no result, and makes no call on the
  database.
\<close>

lemma PagedQuery_unknown_scope:
  fixes pqp :: "('v, 'r, 'rows) PagedQueryParameters"
  assumes "list_all (\<lambda>c. c \<noteq> None) cjs" and "SearchParams pqp = Some sp"
    and "\<not> list_all (\<lambda>s. ScopeJoins pqp s \<noteq> None) (Scopes sp)"
  shows "\<exists>s0 rest. Scopes sp = s0 # rest \<and>
           PagedQuery pqp cjs =
             (Returned None (- 1)
                (Some (BadRequestError (''Found unknown scope: '' @ sq @ s0 @ sq @ ''.'') None)), [])"
proof -
  from assms(3) obtain s0 rest where sc: "Scopes sp = s0 # rest"
    by (cases "Scopes sp") auto
  have "assemble pqp cjs = Inl (unknownScope sp :: 'r Outcome)"
    by (simp add: assemble_def contextLoop_closed [OF assms(1)] assms(2) scopeLoop_unknown [OF assms(3)])
  then show ?thesis
    by (simp add: PagedQuery_def unknownScope_def sc)
qed

section \<open>ExtractSearchParamsFromUrl\<close>

lemma Atoi_empty: "Atoi [] = Inl (NumError ''Atoi'' [] ErrSyntax)"
  by (simp add: Atoi_def)

lemma Extract_pageIndex_ok:
  assumes "FormValue r ''pageIndex'' = [] \<or> (\<exists>p. Atoi (FormValue r ''pageIndex'') = Inr p)"
  shows "\<exists>pageIndex. (if FormValue r ''pageIndex'' \<noteq> [] then Atoi (FormValue r ''pageIndex'') else Inr 1) = Inr pageIndex"
  using assms by auto

text \<open>
  C3, as amended: for every raw request whose pageIndex field is absent (or empty) or parses
  as an integer, itemsPerPage is normalised as follows. An absent (or empty) value gives the
  default 100 and leaves the response untouched; a value that parses and is below 20 gives
  exactly 20, one above 250 gives exactly 250, one within the bounds is unchanged; a value
  that is there and does not parse fails with the caller-input error whose message names the
  field and the raw value, and that error is written to the response.
\<close>

theorem ExtractSearchParamsFromUrl_itemsPerPage:
  assumes "FormValue r ''pageIndex'' = [] \<or> (\<exists>p. Atoi (FormValue r ''pageIndex'') = Inr p)"
  shows "(FormValue r ''itemsPerPage'' = [] \<longrightarrow>
            (\<exists>sp info. ExtractSearchParamsFromUrl w r = (w, Inr sp) \<and> PageInfo sp = Some info \<and>
               ItemsPerPage info = 100)) \<and>
         (\<forall>n. Atoi (FormValue r ''itemsPerPage'') = Inr n \<longrightarrow>
            (\<exists>sp info. ExtractSearchParamsFromUrl w r = (w, Inr sp) \<and> PageInfo sp = Some info \<and>
               ItemsPerPage info = (if sint n < 20 then 20 else if 250 < sint n then 250 else n))) \<and>
         (\<forall>e. FormValue r ''itemsPerPage'' \<noteq> [] \<and> Atoi (FormValue r ''itemsPerPage'') = Inl e \<longrightarrow>
            ExtractSearchParamsFromUrl w r =
              (w @ [BadRequestError (''Could not parse itemsPerPage: '' @ FormValue r ''itemsPerPage'') (Some e)],
               Inl (BadRequestError (''Could not parse itemsPerPage: '' @ FormValue r ''itemsPerPage'') (Some e))))"
proof -
  from Extract_pageIndex_ok [OF assms] obtain pageIndex where
    p: "(if FormValue r ''pageIndex'' \<noteq> [] then Atoi (FormValue r ''pageIndex'') else Inr 1) = Inr pageIndex"
    by blast
  have absent: "FormValue r ''itemsPerPage'' = [] \<longrightarrow>
            (\<exists>sp info. ExtractSearchParamsFromUrl w r = (w, Inr sp) \<and> PageInfo sp = Some info \<and>
               ItemsPerPage info = 100)"
    by (simp add: ExtractSearchParamsFromUrl_def Let_def p)
  have parsed: "\<forall>n. Atoi (FormValue r ''itemsPerPage'') = Inr n \<longrightarrow>
            (\<exists>sp info. ExtractSearchParamsFromUrl w r = (w, Inr sp) \<and> PageInfo sp = Some info \<and>
               ItemsPerPage info = (if sint n < 20 then 20 else if 250 < sint n then 250 else n))"
  proof (intro allI impI)
    fix n
    assume a: "Atoi (FormValue r ''itemsPerPage'') = Inr n"
    then have ne: "FormValue r ''itemsPerPage'' \<noteq> []"
      by (auto simp: Atoi_empty)
    have cl: "clampItemsPerPage n = (if sint n < 20 then 20 else if 250 < sint n then 250 else n)"
      by (simp add: clampItemsPerPage_def word_sless_alt)
    show "\<exists>sp info. ExtractSearchParamsFromUrl w r = (w, Inr sp) \<and> PageInfo sp = Some info \<and>
               ItemsPerPage info = (if sint n < 20 then 20 else if 250 < sint n then 250 else n)"
      by (simp add: ExtractSearchParamsFromUrl_def Let_def p a ne cl del: One_nat_def)
  qed
  have failed: "\<forall>e. FormValue r ''itemsPerPage'' \<noteq> [] \<and> Atoi (FormValue r ''itemsPerPage'') = Inl e \<longrightarrow>
            ExtractSearchParamsFromUrl w r =
              (w @ [BadRequestError (''Could not parse itemsPerPage: '' @ FormValue r ''itemsPerPage'') (Some e)],
               Inl (BadRequestError (''Could not parse itemsPerPage: '' @ FormValue r ''itemsPerPage'') (Some e)))"
    by (simp add: ExtractSearchParamsFromUrl_def Let_def p HandleError_def)
  from absent parsed failed show ?thesis by blast
qed

lemmas atoi_defs = Atoi_def isDigit_def digitVal_def

theorem ExtractSearchParamsFromUrl_itemsPerPage_witness:
  "(\<exists>sp info. ExtractSearchParamsFromUrl [] (requestOf [(''itemsPerPage'', ''10'')]) = ([], Inr sp) \<and>
      PageInfo sp = Some info \<and> ItemsPerPage info = 20) \<and>
   (\<exists>sp info. ExtractSearchParamsFromUrl [] (requestOf [(''itemsPerPage'', ''300''), (''pageIndex'', ''3'')]) = ([], Inr sp) \<and>
      PageInfo sp = Some info \<and> ItemsPerPage info = 250) \<and>
   (\<exists>sp info. ExtractSearchParamsFromUrl [] (requestOf [(''itemsPerPage'', ''50'')]) = ([], Inr sp) \<and>
      PageInfo sp = Some info \<and> ItemsPerPage info = 50) \<and>
   (\<exists>sp info. ExtractSearchParamsFromUrl [] (requestOf [(''sort'', ''name'')]) = ([], Inr sp) \<and>
      PageInfo sp = Some info \<and> ItemsPerPage info = 100) \<and>
   snd (ExtractSearchParamsFromUrl [] (requestOf [(''itemsPerPage'', ''many'')])) =
     Inl (BadRequestError ''Could not parse itemsPerPage: many'' (Some (NumError ''Atoi'' ''many'' ErrSyntax)))"
proof -
  have a: "\<exists>sp info. ExtractSearchParamsFromUrl [] (requestOf [(''itemsPerPage'', ''10'')]) = ([], Inr sp) \<and>
      PageInfo sp = Some info \<and> ItemsPerPage info = 20"
    using ExtractSearchParamsFromUrl_itemsPerPage [of "requestOf [(''itemsPerPage'', ''10'')]" "[]"]
    by (simp add: FormValue_def requestOf_def atoi_defs)
  have b: "\<exists>sp info. ExtractSearchParamsFromUrl [] (requestOf [(''itemsPerPage'', ''300''), (''pageIndex'', ''3'')]) = ([], Inr sp) \<and>
      PageInfo sp = Some info \<and> ItemsPerPage info = 250"
    using ExtractSearchParamsFromUrl_itemsPerPage [of "requestOf [(''itemsPerPage'', ''300''), (''pageIndex'', ''3'')]" "[]"]
    by (simp add: FormValue_def requestOf_def atoi_defs)
  have c: "\<exists>sp info. ExtractSearchParamsFromUrl [] (requestOf [(''itemsPerPage'', ''50'')]) = ([], Inr sp) \<and>
      PageInfo sp = Some info \<and> ItemsPerPage info = 50"
    using ExtractSearchParamsFromUrl_itemsPerPage [of "requestOf [(''itemsPerPage'', ''50'')]" "[]"]
    by (simp add: FormValue_def requestOf_def atoi_defs)
  have d: "\<exists>sp info. ExtractSearchParamsFromUrl [] (requestOf [(''sort'', ''name'')]) = ([], Inr sp) \<and>
      PageInfo sp = Some info \<and> ItemsPerPage info = 100"
    using ExtractSearchParamsFromUrl_itemsPerPage [of "requestOf [(''sort'', ''name'')]" "[]"]
    by (simp add: FormValue_def requestOf_def atoi_defs)
  have e: "snd (ExtractSearchParamsFromUrl [] (requestOf [(''itemsPerPage'', ''many'')])) =
     Inl (BadRequestError ''Could not parse itemsPerPage: many'' (Some (NumError ''Atoi'' ''many'' ErrSyntax)))"
    using ExtractSearchParamsFromUrl_itemsPerPage [of "requestOf [(''itemsPerPage'', ''many'')]" "[]"]
    by (simp add: FormValue_def requestOf_def atoi_defs)
  from a b c d e show ?thesis by blast
qed

text \<open>
  C3, as stated for every raw request, fails: pageIndex is read first, so with the fields
  \<open>pageIndex=x\<close> and \<open>itemsPerPage=10\<close> the value 10 parses and is below 20, and yet the call
  returns no itemsPerPage at all; its error names pageIndex.
\<close>

theorem ExtractSearchParamsFromUrl_pageIndex_first:
  "Atoi ''10'' = Inr 10 \<and>
   ExtractSearchParamsFromUrl [] (requestOf [(''pageIndex'', ''x''), (''itemsPerPage'', ''10'')]) =
     ([BadRequestError ''Could not parse pageIndex: x'' (Some (NumError ''Atoi'' ''x'' ErrSyntax))],
      Inl (BadRequestError ''Could not parse pageIndex: x'' (Some (NumError ''Atoi'' ''x'' ErrSyntax))))"
  by (simp add: ExtractSearchParamsFromUrl_def FormValue_def requestOf_def atoi_defs HandleError_def Let_def)

text \<open>
  What does hold of every successful construction: the PageInfo is there, itemsPerPage lies
  within 20 and 250, both totals are zero and nothing is written to the response.
\<close>

lemma clampItemsPerPage_range:
  "20 \<le> sint (clampItemsPerPage n) \<and> sint (clampItemsPerPage n) \<le> 250"
  by (simp add: clampItemsPerPage_def word_sless_alt)

lemma ExtractSearchParamsFromUrl_success:
  assumes "ExtractSearchParamsFromUrl w r = (w', Inr sp)"
  shows "\<exists>info. PageInfo sp = Some info \<and>
           20 \<le> sint (ItemsPerPage info) \<and> sint (ItemsPerPage info) \<le> 250 \<and>
           TotalItemCount info = 0 \<and> TotalPageCount info = 0 \<and> w' = w"
  using assms clampItemsPerPage_range
  by (auto simp: ExtractSearchParamsFromUrl_def Let_def HandleError_def
      split: sum.splits if_splits)

text \<open>
  C9: after a successful construction pageIndex is to be at least 1. The source clamps
  itemsPerPage and leaves pageIndex as parsed: \<open>pageIndex=0\<close> gives the page index 0, and
  \<open>pageIndex=-3\<close> gives \<open>-3\<close>.
\<close>

theorem ExtractSearchParamsFromUrl_pageIndex_zero:
  "ExtractSearchParamsFromUrl [] (requestOf [(''pageIndex'', ''0'')]) =
     ([], Inr \<lparr>Scopes = [], Terms = [], Sort = [],
               PageInfo = Some \<lparr>PageIndex = 0, ItemsPerPage = 100, TotalItemCount = 0, TotalPageCount = 0\<rparr>\<rparr>) \<and>
   ExtractSearchParamsFromUrl [] (requestOf [(''pageIndex'', ''-3''), (''itemsPerPage'', ''20'')]) =
     ([], Inr \<lparr>Scopes = [], Terms = [], Sort = [],
               PageInfo = Some \<lparr>PageIndex = - 3, ItemsPerPage = 20, TotalItemCount = 0, TotalPageCount = 0\<rparr>\<rparr>) \<and>
   sint (- 3 :: goint) = - 3"
  by (simp add: ExtractSearchParamsFromUrl_def FormValue_def requestOf_def atoi_defs clampItemsPerPage_def word_sless_alt Let_def)

section \<open>PagedQuery\<close>

lemma sint_offset:
  fixes p n :: "64 word"
  assumes "- (2 ^ 63) < sint p" and "- (2 ^ 63) \<le> (sint p - 1) * sint n"
    and "(sint p - 1) * sint n < 2 ^ 63"
  shows "sint ((p - 1) * n) = (sint p - 1) * sint n"
proof -
  have "sint (p - 1) = sint p - 1"
    using assms(1) sint_64_bounds [of p]
    by (simp add: sint_word_diff signed_take_bit_int_eq_self)
  then show ?thesis
    using assms(2,3) by (simp add: sint_word_mult signed_take_bit_int_eq_self)
qed

lemma PagedQuery_assembled:
  "assemble pqp cjs = Inr (queryStmt, params) \<Longrightarrow> PagedQuery pqp cjs = runQuery pqp queryStmt params"
  by (simp add: PagedQuery_def)

lemma runQuery_prepares:
  assumes "Db pqp = Some db" and "BeginTx db = None"
  shows "\<exists>ops. snd (runQuery pqp queryStmt params) = OpBeginTx # OpPrepare queryStmt # ops"
  using assms
  by (simp add: runQuery_def Let_def split: option.split sum.split prod.split)

lemma runQuery_error:
  assumes "runQuery pqp queryStmt params = (Returned results count (Some e), ops)"
  shows "kind e = InternalServer \<and> count = 0 \<and> results = None \<and>
         ops \<noteq> [] \<and> hd ops = OpBeginTx \<and> last ops = OpRollback"
  using assms
  by (auto simp: runQuery_def Let_def ServerError_def split: option.splits sum.splits prod.splits if_splits)

lemma assemble_Inl_cases:
  fixes pqp :: "('v, 'r, 'rows) PagedQueryParameters"
  assumes "assemble pqp cjs = Inl out"
  shows "(\<exists>p. out = Panicked p) \<or>
         (\<exists>m c. out = Returned None (- 1) (Some (RestError BadRequest m c))) \<or>
         (\<exists>m. out = Returned None (- 1) (Some (RestError UnprocessableEntity m None)))"
proof (cases "list_all (\<lambda>c. c \<noteq> None) cjs")
  case False
  then show ?thesis
    using assms by (auto simp: assemble_def contextLoop_nil)
next
  case c: True
  show ?thesis
  proof (cases "SearchParams pqp")
    case None
    then show ?thesis
      using assms by (auto simp: assemble_def contextLoop_closed [OF c])
  next
    case (Some sp)
    show ?thesis
    proof (cases "list_all (\<lambda>s. ScopeJoins pqp s \<noteq> None) (Scopes sp)")
      case False
      have "out = unknownScope sp"
        using assms by (simp add: assemble_def contextLoop_closed [OF c] Some scopeLoop_unknown [OF False])
      then show ?thesis
        by (auto simp: unknownScope_def BadRequestError_def split: list.splits)
    next
      case s: True
      let ?ps = "spec_context_params cjs @ spec_scope_params (ScopeJoins pqp) (Scopes sp)"
      let ?w = "''WHERE TRUE '' @ spec_context_where cjs @ spec_scope_where (ScopeJoins pqp) (Scopes sp)"
      show ?thesis
      proof (cases "termsAccepted (SearchWhereGenerator pqp) (Terms sp) ?ps")
        case False
        from termLoop_rejected [OF False, of ?w]
        obtain out' :: "'r Outcome" where
          tl: "termLoop (SearchWhereGenerator pqp) (Terms sp) (?ps, ?w) = Inl out'" and
          k: "out' = Panicked NilDereference \<or>
              (\<exists>t e. out' = Returned None (- 1)
                 (Some (BadRequestError (''Could not process search term: '' @ sq @ t @ sq @ ''.'') (Some e))))"
          by blast
        have "assemble pqp cjs = Inl out'"
          using tl by (simp add: assemble_def contextLoop_closed [OF c] Some scopeLoop_closed [OF s])
        with assms have "out = out'" by simp
        with k show ?thesis
          by (auto simp: BadRequestError_def)
      next
        case t: True
        show ?thesis
          using assms
          by (auto simp: assemble_def contextLoop_closed [OF c] Some scopeLoop_closed [OF s]
              termLoop_closed [OF t] Let_def UnprocessableEntityError_def split: option.splits)
      qed
    qed
  qed
qed

text \<open>
  C4, as amended: for every SearchParams with pageIndex \<open>p\<close> and itemsPerPage \<open>n\<close>, the
  statement that \<open>PagedQuery\<close> assembles ends with its ORDER BY clause followed by a LIMIT
  clause whose row count is \<open>n\<close> and whose offset is \<open>(p - 1) * n\<close> computed in Go's 64-bit
  \<open>int\<close>, with wrap-around; this is the statement prepared once the transaction is open.
  The offset is the integer \<open>(p - 1) * n\<close> whenever \<open>p\<close> is not the least \<open>int\<close> and that
  product fits 64 bits.
\<close>

theorem PagedQuery_limit_clause:
  fixes pqp :: "('v, 'r, 'rows) PagedQueryParameters"
  assumes "SearchParams pqp = Some sp" and "PageInfo sp = Some info"
    and "assemble pqp cjs = Inr (queryStmt, params)"
  shows "(\<exists>body val. SortMap pqp (Sort sp) = Some val \<and>
            queryStmt = body @ ''ORDER BY '' @ val @
              ''LIMIT '' @ Itoa ((PageIndex info - 1) * ItemsPerPage info) @ '', '' @ Itoa (ItemsPerPage info)) \<and>
         (\<forall>db. Db pqp = Some db \<and> BeginTx db = None \<longrightarrow>
            (\<exists>ops. snd (PagedQuery pqp cjs) = OpBeginTx # OpPrepare queryStmt # ops)) \<and>
         (- (2 ^ 63) < sint (PageIndex info) \<and>
          - (2 ^ 63) \<le> (sint (PageIndex info) - 1) * sint (ItemsPerPage info) \<and>
          (sint (PageIndex info) - 1) * sint (ItemsPerPage info) < 2 ^ 63 \<longrightarrow>
            sint ((PageIndex info - 1) * ItemsPerPage info) =
              (sint (PageIndex info) - 1) * sint (ItemsPerPage info))"
proof -
  from assemble_Inr_D [OF assms(3)] assms(1,2) obtain val where
    ca: "clausesAssemble pqp sp cjs" and val: "SortMap pqp (Sort sp) = Some val"
    by auto
  from assemble_closed [OF assms(1) ca assms(2) val] assms(3)
  have stmt: "queryStmt = spec_statement pqp sp info val cjs" by simp
  let ?body = "''SELECT DISTINCT SQL_CALC_FOUND_ROWS '' @ FieldSpec pqp @ spec_from pqp sp cjs @
     (if spec_where pqp sp cjs = ''WHERE TRUE '' then [] else spec_where pqp sp cjs)"
  have "queryStmt = ?body @ ''ORDER BY '' @ val @
              ''LIMIT '' @ Itoa ((PageIndex info - 1) * ItemsPerPage info) @ '', '' @ Itoa (ItemsPerPage info)"
    by (simp add: stmt spec_statement_def spec_limit_def)
  with val have first: "\<exists>body val. SortMap pqp (Sort sp) = Some val \<and>
            queryStmt = body @ ''ORDER BY '' @ val @
              ''LIMIT '' @ Itoa ((PageIndex info - 1) * ItemsPerPage info) @ '', '' @ Itoa (ItemsPerPage info)"
    by blast
  have second: "\<forall>db. Db pqp = Some db \<and> BeginTx db = None \<longrightarrow>
            (\<exists>ops. snd (PagedQuery pqp cjs) = OpBeginTx # OpPrepare queryStmt # ops)"
    by (simp add: PagedQuery_assembled [OF assms(3)] runQuery_prepares)
  from first second show ?thesis
    by (simp add: sint_offset)
qed

theorem PagedQuery_limit_clause_witness:
  "assemble exampleQuery [] = Inr (exampleStatement, [''1'', ''widget'']) \<and>
   (\<exists>body. exampleStatement = body @ ''ORDER BY w.name ASC LIMIT 20, 20'') \<and>
   (\<exists>ops. snd (PagedQuery exampleQuery []) = OpBeginTx # OpPrepare exampleStatement # ops)"
proof -
  have sp: "SearchParams exampleQuery = Some exampleParams" by (simp add: exampleQuery_def)
  have info: "PageInfo exampleParams = Some examplePage" by (simp add: exampleParams_def)
  have db: "Db exampleQuery = Some exampleDb \<and> BeginTx exampleDb = None"
    by (simp add: exampleQuery_def exampleDb_def)
  have one: "Itoa ((PageIndex examplePage - 1) * ItemsPerPage examplePage) = ''20''"
    and two: "Itoa (ItemsPerPage examplePage) = ''20''"
    by (simp_all add: examplePage_def Itoa_def digitsOf.simps digitChar_def)
  have srt: "SortMap exampleQuery (Sort exampleParams) = Some ''w.name ASC ''"
    by (simp add: exampleQuery_def exampleParams_def)
  from PagedQuery_limit_clause [OF sp info assemble_exampleQuery] db
  show ?thesis
    by (simp add: assemble_exampleQuery one two srt)
qed

text \<open>
  C4, as stated for every SearchParams with the integer offset \<open>(p - 1) * n\<close>, fails: the
  request \<open>pageIndex=9223372036854775807\<close>, \<open>itemsPerPage=250\<close> is accepted, the integer
  product is 2305843009213693951500, and the multiplication in \<open>int\<close> wraps: the clause
  assembled is \<open>LIMIT -500, 250\<close>.
\<close>

theorem PagedQuery_limit_offset_wraps:
  "ExtractSearchParamsFromUrl []
     (requestOf [(''pageIndex'', ''9223372036854775807''), (''itemsPerPage'', ''250'')]) =
     ([], Inr hugeParams) \<and>
   assemble (exampleQuery\<lparr>SearchParams := Some hugeParams\<rparr>) [] = Inr (hugeStatement, []) \<and>
   (sint (PageIndex hugePage) - 1) * sint (ItemsPerPage hugePage) = 2305843009213693951500 \<and>
   sint ((PageIndex hugePage - 1) * ItemsPerPage hugePage) = - 500"
proof -
  have a: "ExtractSearchParamsFromUrl []
     (requestOf [(''pageIndex'', ''9223372036854775807''), (''itemsPerPage'', ''250'')]) =
     ([], Inr hugeParams)"
    by (simp add: ExtractSearchParamsFromUrl_def FormValue_def requestOf_def atoi_defs
        clampItemsPerPage_def word_sless_alt Let_def hugeParams_def hugePage_def)
  have b: "assemble (exampleQuery\<lparr>SearchParams := Some hugeParams\<rparr>) [] = Inr (hugeStatement, [])"
    by (simp add: example_defs run_defs hugeParams_def hugePage_def hugeStatement_def)
  have c: "(sint (PageIndex hugePage) - 1) * sint (ItemsPerPage hugePage) = 2305843009213693951500"
    by (simp add: hugePage_def)
  have d: "sint ((PageIndex hugePage - 1) * ItemsPerPage hugePage) = - 500"
    by (simp add: hugePage_def)
  from a b c d show ?thesis by simp
qed

lemma assemble_unknown_sort:
  fixes pqp :: "('v, 'r, 'rows) PagedQueryParameters"
  assumes "SearchParams pqp = Some sp" and "clausesAssemble pqp sp cjs"
    and "PageInfo sp = Some info" and "SortMap pqp (Sort sp) = None"
  shows "assemble pqp cjs =
           Inl (Returned None (- 1)
                  (Some (UnprocessableEntityError (''Bad sort value: '' @ sq @ Sort sp @ sq @ ''.'') None)))"
proof -
  from assms(2) have c: "list_all (\<lambda>c. c \<noteq> None) cjs"
    and s: "list_all (\<lambda>s. ScopeJoins pqp s \<noteq> None) (Scopes sp)"
    and t: "termsAccepted (SearchWhereGenerator pqp) (Terms sp)
              (spec_context_params cjs @ spec_scope_params (ScopeJoins pqp) (Scopes sp))"
    by (simp_all add: clausesAssemble_def spec_base_params_def)
  show ?thesis
    unfolding assemble_def
    by (simp add: contextLoop_closed [OF c] assms(1,3,4) scopeLoop_closed [OF s]
        termLoop_closed [OF t] Let_def)
qed

text \<open>
  C5, as amended: for every SearchParams whose sort key (the empty string included) is absent
  from the sort map, \<open>PagedQuery\<close> makes no call on the database and does not succeed; and
  when the clause assembly gets as far as the sort lookup (no nil context join, every scope in
  the scope map, every search term accepted by the generator, the PageInfo there), it returns
  the unprocessable-value error, whose kind is not the caller-input kind.
\<close>

theorem PagedQuery_unknown_sort:
  fixes pqp :: "('v, 'r, 'rows) PagedQueryParameters"
  assumes "SearchParams pqp = Some sp" and "SortMap pqp (Sort sp) = None"
  shows "snd (PagedQuery pqp cjs) = [] \<and>
         (\<forall>results count. fst (PagedQuery pqp cjs) \<noteq> Returned results count None) \<and>
         (clausesAssemble pqp sp cjs \<and> PageInfo sp \<noteq> None \<longrightarrow>
            fst (PagedQuery pqp cjs) =
              Returned None (- 1)
                (Some (RestError UnprocessableEntity (''Bad sort value: '' @ sq @ Sort sp @ sq @ ''.'') None))) \<and>
         UnprocessableEntity \<noteq> BadRequest"
proof -
  have "\<exists>out. assemble pqp cjs = Inl out"
  proof (cases "assemble pqp cjs")
    case (Inl out)
    then show ?thesis by blast
  next
    case (Inr r)
    from assemble_Inr_D [OF this] assms show ?thesis by auto
  qed
  then obtain out where out: "assemble pqp cjs = Inl out" by blast
  have pq: "PagedQuery pqp cjs = (out, [])"
    by (simp add: PagedQuery_def out)
  have nosucc: "\<forall>results count. out \<noteq> Returned results count None"
    using assemble_Inl_cases [OF out] by auto
  have third: "clausesAssemble pqp sp cjs \<and> PageInfo sp \<noteq> None \<longrightarrow>
            out = Returned None (- 1)
                (Some (RestError UnprocessableEntity (''Bad sort value: '' @ sq @ Sort sp @ sq @ ''.'') None))"
  proof
    assume a: "clausesAssemble pqp sp cjs \<and> PageInfo sp \<noteq> None"
    then obtain info where info: "PageInfo sp = Some info" by auto
    from a have ca: "clausesAssemble pqp sp cjs" by simp
    from assemble_unknown_sort [OF assms(1) ca info assms(2)] out
    show "out = Returned None (- 1)
                (Some (RestError UnprocessableEntity (''Bad sort value: '' @ sq @ Sort sp @ sq @ ''.'') None))"
      by (simp add: UnprocessableEntityError_def)
  qed
  from nosucc third show ?thesis by (simp add: pq)
qed

theorem PagedQuery_unknown_sort_witness:
  "PagedQuery (exampleQuery\<lparr>SearchParams := Some unsortedParams\<rparr>) [] =
     (Returned None (- 1) (Some (RestError UnprocessableEntity (''Bad sort value: '' @ sq @ ''nope'' @ sq @ ''.'') None)), [])"
proof -
  let ?pqp = "exampleQuery\<lparr>SearchParams := Some unsortedParams\<rparr>"
  have sp: "SearchParams ?pqp = Some unsortedParams" by simp
  have srt: "SortMap ?pqp (Sort unsortedParams) = None"
    by (simp add: exampleQuery_def unsortedParams_def)
  have ca: "clausesAssemble ?pqp unsortedParams [] \<and> PageInfo unsortedParams \<noteq> None"
    by (simp add: clausesAssemble_def spec_base_params_def spec_context_params_def spec_scope_params_def
        unsortedParams_def example_defs)
  have s: "Sort unsortedParams = ''nope''" by (simp add: unsortedParams_def)
  from PagedQuery_unknown_sort [OF sp srt, of "[]"] ca
  show ?thesis
    by (simp add: s prod_eq_iff)
qed

text \<open>
  C5, as stated for every SearchParams, fails: the scopes are looked up before the sort key,
  so with an unknown scope and an unknown sort key the error is the caller-input error of the
  scope.
\<close>

theorem PagedQuery_unknown_sort_after_unknown_scope:
  "SortMap exampleQuery ''nope'' = None \<and>
   PagedQuery (exampleQuery\<lparr>SearchParams := Some (exampleParams\<lparr>Scopes := [''bogus''], Sort := ''nope''\<rparr>)\<rparr>) [] =
     (Returned None (- 1) (Some (RestError BadRequest (''Found unknown scope: '' @ sq @ ''bogus'' @ sq @ ''.'') None)), [])"
  by (simp add: example_defs run_defs)

text \<open>
  C6: in the assembled statement the base FROM and the join clauses of the context joins are
  followed by one fragment for each requested scope, in order, and then by the WHERE clause.
  The fragment of a scope whose entry has no join-test is the entry's default join clause;
  when the entry has a join-test, the test is called with the context joins, and the fragment
  is the override if the test says so and the default join clause otherwise.
\<close>

theorem PagedQuery_join_test:
  fixes pqp :: "('v, 'r, 'rows) PagedQueryParameters"
  assumes "SearchParams pqp = Some sp" and "assemble pqp cjs = Inr (queryStmt, params)"
  shows "\<exists>frag info val.
           PageInfo sp = Some info \<and> SortMap pqp (Sort sp) = Some val \<and>
           queryStmt =
             ''SELECT DISTINCT SQL_CALC_FOUND_ROWS '' @ FieldSpec pqp @
             GeneralFrom pqp @ spec_context_from cjs @ concat (map frag (Scopes sp)) @
             (if spec_where pqp sp cjs = ''WHERE TRUE '' then [] else spec_where pqp sp cjs) @
             ''ORDER BY '' @ val @ spec_limit info \<and>
           (\<forall>scope \<in> set (Scopes sp).
              \<exists>val. ScopeJoins pqp scope = Some val \<and>
                (case JoinTest val of
                   None \<Rightarrow> frag scope = JoinClause val
                 | Some joinTest \<Rightarrow>
                     (case joinTest (views cjs) of
                        (useIt, override) \<Rightarrow> frag scope = (if useIt then override else JoinClause val)))) \<and>
           (\<forall>db. Db pqp = Some db \<and> BeginTx db = None \<longrightarrow>
              (\<exists>ops. snd (PagedQuery pqp cjs) = OpBeginTx # OpPrepare queryStmt # ops))"
proof -
  from assemble_Inr_D [OF assms(2)] assms(1) obtain info val where
    ca: "clausesAssemble pqp sp cjs" and info: "PageInfo sp = Some info"
    and val: "SortMap pqp (Sort sp) = Some val"
    by auto
  let ?frag = "\<lambda>s. case ScopeJoins pqp s of None \<Rightarrow> [] | Some v \<Rightarrow> spec_scope_join v (views cjs)"
  from assemble_closed [OF assms(1) ca info val] assms(2)
  have "queryStmt = spec_statement pqp sp info val cjs" by simp
  then have stmt: "queryStmt =
             ''SELECT DISTINCT SQL_CALC_FOUND_ROWS '' @ FieldSpec pqp @
             GeneralFrom pqp @ spec_context_from cjs @ concat (map ?frag (Scopes sp)) @
             (if spec_where pqp sp cjs = ''WHERE TRUE '' then [] else spec_where pqp sp cjs) @
             ''ORDER BY '' @ val @ spec_limit info"
    by (simp add: spec_statement_def spec_from_def spec_scope_from_def)
  have each: "\<forall>scope \<in> set (Scopes sp).
              \<exists>val. ScopeJoins pqp scope = Some val \<and>
                (case JoinTest val of
                   None \<Rightarrow> ?frag scope = JoinClause val
                 | Some joinTest \<Rightarrow>
                     (case joinTest (views cjs) of
                        (useIt, override) \<Rightarrow> ?frag scope = (if useIt then override else JoinClause val)))"
  proof
    fix scope
    assume "scope \<in> set (Scopes sp)"
    with ca obtain v where v: "ScopeJoins pqp scope = Some v"
      by (auto simp: clausesAssemble_def list_all_iff)
    show "\<exists>val. ScopeJoins pqp scope = Some val \<and>
                (case JoinTest val of
                   None \<Rightarrow> ?frag scope = JoinClause val
                 | Some joinTest \<Rightarrow>
                     (case joinTest (views cjs) of
                        (useIt, override) \<Rightarrow> ?frag scope = (if useIt then override else JoinClause val)))"
      by (simp add: v spec_scope_join_def split: option.split prod.split)
  qed
  have prepared: "\<forall>db. Db pqp = Some db \<and> BeginTx db = None \<longrightarrow>
              (\<exists>ops. snd (PagedQuery pqp cjs) = OpBeginTx # OpPrepare queryStmt # ops)"
    by (simp add: PagedQuery_assembled [OF assms(2)] runQuery_prepares)
  from info val stmt each prepared show ?thesis by blast
qed

lemma assemble_ownedQuery:
  "assemble (exampleQuery\<lparr>SearchParams := Some ownedParams\<rparr>) [Some parentJoin] =
     Inr (ownedStatement, [''7'', ''widget''])"
  by (simp add: example_defs run_defs ownedParams_def ownedStatement_def)

theorem PagedQuery_join_test_witness:
  "ownedTest (views [Some parentJoin]) = (True, ''JOIN owner_flags f ON f.owner_id = o.id '') \<and>
   assemble (exampleQuery\<lparr>SearchParams := Some ownedParams\<rparr>) [Some parentJoin] =
     Inr (ownedStatement, [''7'', ''widget''])"
proof -
  have sp: "SearchParams (exampleQuery\<lparr>SearchParams := Some ownedParams\<rparr>) = Some ownedParams"
    by simp
  have t: "ownedTest (views [Some parentJoin]) = (True, ''JOIN owner_flags f ON f.owner_id = o.id '')"
    by (simp add: ownedTest_def views_def parentJoin_def JoinView.truncate_def)
  from PagedQuery_join_test [OF sp assemble_ownedQuery] t
  show ?thesis by (simp add: assemble_ownedQuery)
qed

text \<open>
  C7: the model of the assembly is a function of the descriptor, the search parameters and the
  context joins, so two invocations on the same three give the same statement and the same
  bound parameters. The theorem gives the value: the statement is the SELECT prefix, the field
  list, the FROM clause (base FROM, context joins in the caller's order, scopes in the order of
  the search parameters), the WHERE clause (the placeholder, context joins, scopes, search
  terms in order, dropped when only the placeholder is left), ORDER BY and LIMIT; the
  parameters are those of the context joins, then of the scopes, then what the generator made
  of them term after term. The value does not depend on the database handle, the result
  builder, the resource name or the \<open>ContextJoins\<close> field, and it is the statement prepared.
\<close>

theorem PagedQuery_assembly_order:
  fixes pqp :: "('v, 'r, 'rows) PagedQueryParameters"
  assumes "SearchParams pqp = Some sp" and "PageInfo sp = Some info"
    and "SortMap pqp (Sort sp) = Some val" and "clausesAssemble pqp sp cjs"
  shows "assemble pqp cjs =
           Inr (''SELECT DISTINCT SQL_CALC_FOUND_ROWS '' @ FieldSpec pqp @ spec_from pqp sp cjs @
                (if spec_where pqp sp cjs = ''WHERE TRUE '' then [] else spec_where pqp sp cjs) @
                ''ORDER BY '' @ val @ spec_limit info,
                spec_params pqp sp cjs) \<and>
         (\<forall>stmt1 params1 stmt2 params2.
            assemble pqp cjs = Inr (stmt1, params1) \<and> assemble pqp cjs = Inr (stmt2, params2) \<longrightarrow>
            stmt1 = stmt2 \<and> params1 = params2) \<and>
         (\<forall>db rb name cj.
            assemble (pqp\<lparr>Db := db, ResultBuilder := rb, ResourceName := name, ContextJoins := cj\<rparr>) cjs =
            assemble pqp cjs) \<and>
         (\<forall>db. Db pqp = Some db \<and> BeginTx db = None \<longrightarrow>
            (\<exists>ops. snd (PagedQuery pqp cjs) =
               OpBeginTx #
               OpPrepare (''SELECT DISTINCT SQL_CALC_FOUND_ROWS '' @ FieldSpec pqp @ spec_from pqp sp cjs @
                   (if spec_where pqp sp cjs = ''WHERE TRUE '' then [] else spec_where pqp sp cjs) @
                   ''ORDER BY '' @ val @ spec_limit info) # ops))"
proof -
  let ?stmt = "''SELECT DISTINCT SQL_CALC_FOUND_ROWS '' @ FieldSpec pqp @ spec_from pqp sp cjs @
                (if spec_where pqp sp cjs = ''WHERE TRUE '' then [] else spec_where pqp sp cjs) @
                ''ORDER BY '' @ val @ spec_limit info"
  have a: "assemble pqp cjs = Inr (?stmt, spec_params pqp sp cjs)"
    using assemble_closed [OF assms(1,4,2,3)] by (simp add: spec_statement_def)
  have b: "\<forall>db rb name cj.
            assemble (pqp\<lparr>Db := db, ResultBuilder := rb, ResourceName := name, ContextJoins := cj\<rparr>) cjs =
            assemble pqp cjs"
    by (simp add: assemble_def cong: sum.case_cong option.case_cong)
  have c: "\<forall>db. Db pqp = Some db \<and> BeginTx db = None \<longrightarrow>
            (\<exists>ops. snd (PagedQuery pqp cjs) = OpBeginTx # OpPrepare ?stmt # ops)"
    by (simp add: PagedQuery_assembled [OF a] runQuery_prepares)
  have d: "\<forall>stmt1 params1 stmt2 params2.
            assemble pqp cjs = Inr (stmt1, params1) \<and> assemble pqp cjs = Inr (stmt2, params2) \<longrightarrow>
            stmt1 = stmt2 \<and> params1 = params2"
    by auto
  from a b c d show ?thesis by blast
qed

theorem PagedQuery_assembly_order_witness:
  "assemble (exampleQuery\<lparr>SearchParams := Some ownedParams\<rparr>) [Some parentJoin] =
     Inr (ownedStatement, [''7'', ''widget'']) \<and>
   spec_from (exampleQuery\<lparr>SearchParams := Some ownedParams\<rparr>) ownedParams [Some parentJoin] =
     ''FROM widgets w JOIN owners o ON o.id = w.owner_id JOIN owner_flags f ON f.owner_id = o.id '' \<and>
   spec_where (exampleQuery\<lparr>SearchParams := Some ownedParams\<rparr>) ownedParams [Some parentJoin] =
     ''WHERE TRUE AND o.id = ? AND f.verified = 1 AND w.name LIKE ? '' \<and>
   spec_params (exampleQuery\<lparr>SearchParams := Some ownedParams\<rparr>) ownedParams [Some parentJoin] =
     [''7'', ''widget'']"
proof -
  let ?pqp = "exampleQuery\<lparr>SearchParams := Some ownedParams\<rparr>"
  have sp: "SearchParams ?pqp = Some ownedParams" by simp
  have info: "PageInfo ownedParams = Some examplePage"
    by (simp add: ownedParams_def exampleParams_def)
  have srt: "SortMap ?pqp (Sort ownedParams) = Some ''w.name ASC ''"
    by (simp add: ownedParams_def exampleParams_def exampleQuery_def)
  have bp: "spec_base_params ?pqp ownedParams [Some parentJoin] = [''7'']"
    by (simp add: spec_base_params_def spec_context_params_def spec_scope_params_def
        ownedParams_def example_defs)
  have ca: "clausesAssemble ?pqp ownedParams [Some parentJoin]"
    by (simp add: clausesAssemble_def bp) (simp add: ownedParams_def example_defs)
  have f: "spec_from ?pqp ownedParams [Some parentJoin] =
     ''FROM widgets w JOIN owners o ON o.id = w.owner_id JOIN owner_flags f ON f.owner_id = o.id ''"
    by (simp add: spec_from_def spec_context_from_def spec_scope_from_def spec_scope_join_def
        views_def JoinView.truncate_def ownedParams_def example_defs)
  have w: "spec_where ?pqp ownedParams [Some parentJoin] =
     ''WHERE TRUE AND o.id = ? AND f.verified = 1 AND w.name LIKE ? ''"
    by (simp add: spec_where_def bp) 
       (simp add: spec_context_where_def spec_scope_where_def ownedParams_def example_defs)
  have p: "spec_params ?pqp ownedParams [Some parentJoin] = [''7'', ''widget'']"
    by (simp add: spec_params_def bp) (simp add: ownedParams_def example_defs)
  have fs: "FieldSpec ?pqp = ''w.id, w.name ''"
    by (simp add: exampleQuery_def)
  have l: "spec_limit examplePage = ''LIMIT 20, 20''"
    by (simp add: spec_limit_def examplePage_def Itoa_def digitsOf.simps digitChar_def)
  from PagedQuery_assembly_order [OF sp info srt ca]
  have "assemble ?pqp [Some parentJoin] =
          Inr (''SELECT DISTINCT SQL_CALC_FOUND_ROWS '' @ FieldSpec ?pqp @
               spec_from ?pqp ownedParams [Some parentJoin] @
               (if spec_where ?pqp ownedParams [Some parentJoin] = ''WHERE TRUE '' then []
                else spec_where ?pqp ownedParams [Some parentJoin]) @
               ''ORDER BY '' @ ''w.name ASC '' @ spec_limit examplePage,
               spec_params ?pqp ownedParams [Some parentJoin])"
    by blast
  then have "assemble ?pqp [Some parentJoin] = Inr (ownedStatement, [''7'', ''widget''])"
    by (simp add: f w p fs l ownedStatement_def)
  with f w p show ?thesis by simp
qed

text \<open>
  A search term that the generator refuses ends the call with the caller-input error that
  names the term, the count \<open>-1\<close>, no result and no call on the database.
\<close>

lemma PagedQuery_term_refused:
  fixes pqp :: "('v, 'r, 'rows) PagedQueryParameters"
  assumes "list_all (\<lambda>c. c \<noteq> None) cjs" and "SearchParams pqp = Some sp"
    and "list_all (\<lambda>s. ScopeJoins pqp s \<noteq> None) (Scopes sp)"
    and "SearchWhereGenerator pqp = Some g"
    and "\<not> termsAccepted (Some g) (Terms sp) (spec_base_params pqp sp cjs)"
  shows "\<exists>t e. t \<in> set (Terms sp) \<and>
           PagedQuery pqp cjs =
             (Returned None (- 1)
                (Some (BadRequestError (''Could not process search term: '' @ sq @ t @ sq @ ''.'') (Some e))), [])"
proof -
  let ?ps = "spec_context_params cjs @ spec_scope_params (ScopeJoins pqp) (Scopes sp)"
  let ?w = "''WHERE TRUE '' @ spec_context_where cjs @ spec_scope_where (ScopeJoins pqp) (Scopes sp)"
  from assms(5) have n: "\<not> termsAccepted (Some g) (Terms sp) ?ps"
    by (simp add: spec_base_params_def)
  have np: "termLoop (Some g) ts (ps, w) \<noteq> Inl (Panicked NilDereference :: 'r Outcome)" for ts ps w
    by (induction ts arbitrary: ps w) (auto split: prod.splits option.splits)
  from termLoop_rejected [OF n, of ?w] np [of "Terms sp" ?ps ?w]
  obtain t e where t: "t \<in> set (Terms sp)" and
    tl: "termLoop (Some g) (Terms sp) (?ps, ?w) =
           Inl (Returned None (- 1)
                  (Some (BadRequestError (''Could not process search term: '' @ sq @ t @ sq @ ''.'') (Some e)))
                :: 'r Outcome)"
    by blast
  have "assemble pqp cjs =
          Inl (Returned None (- 1)
                 (Some (BadRequestError (''Could not process search term: '' @ sq @ t @ sq @ ''.'') (Some e))))"
    using tl
    by (simp add: assemble_def contextLoop_closed [OF assms(1)] assms(2,4) scopeLoop_closed [OF assms(3)])
  with t show ?thesis
    by (auto simp: PagedQuery_def)
qed

text \<open>
  C10: whenever \<open>PagedQuery\<close> returns an error, the count tells its kind apart. With a
  caller-input error (unknown scope, search term refused by the generator) the count is \<open>-1\<close>,
  the result is nil and no call was made on the database; with a server-side error the count
  is 0, the result is nil, and the calls on the database begin with \<open>BeginTx\<close> and end with
  \<open>Rollback\<close>. The unprocessable-value error of the sort key comes with \<open>-1\<close> as well.
\<close>

theorem PagedQuery_error_counts:
  fixes pqp :: "('v, 'r, 'rows) PagedQueryParameters"
  assumes "PagedQuery pqp cjs = (Returned results count (Some e), ops)"
  shows "(kind e = BadRequest \<longrightarrow> count = - 1 \<and> results = None \<and> ops = []) \<and>
         (kind e = InternalServer \<longrightarrow>
            count = 0 \<and> results = None \<and> ops \<noteq> [] \<and> hd ops = OpBeginTx \<and> last ops = OpRollback) \<and>
         (kind e = UnprocessableEntity \<longrightarrow> count = - 1 \<and> results = None \<and> ops = [])"
proof (cases "assemble pqp cjs")
  case (Inl out)
  with assms have out: "out = Returned results count (Some e)" and ops: "ops = []"
    by (simp_all add: PagedQuery_def)
  from assemble_Inl_cases [OF Inl] out ops show ?thesis by auto
next
  case (Inr r)
  obtain queryStmt params where r: "r = (queryStmt, params)" by (cases r)
  from assms have "runQuery pqp queryStmt params = (Returned results count (Some e), ops)"
    by (simp add: PagedQuery_def Inr r)
  from runQuery_error [OF this] show ?thesis by simp
qed

theorem PagedQuery_error_counts_witness:
  "PagedQuery (exampleQuery\<lparr>SearchParams := Some (exampleParams\<lparr>Terms := [''widget'', []]\<rparr>)\<rparr>) [] =
     (Returned None (- 1)
        (Some (RestError BadRequest (''Could not process search term: '' @ sq @ [] @ sq @ ''.'')
                 (Some (ErrorString ''empty search term'')))), []) \<and>
   PagedQuery (exampleQuery\<lparr>Db := Some failingDb\<rparr>) [] =
     (Returned None 0
        (Some (RestError InternalServer ''Could not process widgets query.''
                 (Some (ErrorString ''You have an error in your SQL syntax'')))),
      [OpBeginTx, OpPrepare exampleStatement, OpRollback])"
proof -
  have a: "PagedQuery (exampleQuery\<lparr>SearchParams := Some (exampleParams\<lparr>Terms := [''widget'', []]\<rparr>)\<rparr>) [] =
     (Returned None (- 1)
        (Some (RestError BadRequest (''Could not process search term: '' @ sq @ [] @ sq @ ''.'')
                 (Some (ErrorString ''empty search term'')))), [])"
    by (simp add: example_defs run_defs)
  have "assemble (exampleQuery\<lparr>Db := Some failingDb\<rparr>) [] = Inr (exampleStatement, [''1'', ''widget''])"
    by (simp add: example_defs run_defs exampleStatement_def)
  then have b: "PagedQuery (exampleQuery\<lparr>Db := Some failingDb\<rparr>) [] =
     (Returned None 0
        (Some (RestError InternalServer ''Could not process widgets query.''
                 (Some (ErrorString ''You have an error in your SQL syntax'')))),
      [OpBeginTx, OpPrepare exampleStatement, OpRollback])"
    by (simp add: PagedQuery_def) (simp add: runQuery_def failingDb_def example_defs ServerError_def)
  from PagedQuery_error_counts [OF a] PagedQuery_error_counts [OF b] a b
  show ?thesis by simp
qed

end
